theory Spec2Isabelle
  imports Main
begin

section \<open>Records of a split\<close>

text \<open>
  A split (\<^verbatim>\<open>train\<close>, \<^verbatim>\<open>query\<close>, \<^verbatim>\<open>gallery\<close>) is a Python list of records. The code of
  \<^verbatim>\<open>torchreid/data/datasets/dataset.py\<close> accepts two shapes of record and tells them apart
  with \<^verbatim>\<open>isinstance(record, dict)\<close>:
  \<^item> a dict with the keys \<^verbatim>\<open>img_path\<close>, \<^verbatim>\<open>obj_id\<close>, \<^verbatim>\<open>cam_id\<close>, \<^verbatim>\<open>dataset_id\<close> and any further keys;
  \<^item> a tuple \<^verbatim>\<open>(img_path(s), pid, camid, ...)\<close>; the loaders of
    \<^verbatim>\<open>image/classification.py\<close> build \<^verbatim>\<open>(path, label, 0, dataset_id, '', -1, -1)\<close>.
  The first field is one path (a string) or a sequence of paths (a tracklet). Identity,
  camera and dataset ids are Python integers.
\<close>

datatype media = Str string | Seq "string list"

datatype pyval = PyInt int | PyStr string

datatype data_record =
    DictRec media int int int "(string \<times> pyval) list"
      \<comment> \<open>\<^verbatim>\<open>img_path\<close>, \<^verbatim>\<open>obj_id\<close>, \<^verbatim>\<open>cam_id\<close>, \<^verbatim>\<open>dataset_id\<close>, the other keys\<close>
  | TupleRec media int int "pyval list"
      \<comment> \<open>\<^verbatim>\<open>record[0]\<close>, \<^verbatim>\<open>record[1]\<close>, \<^verbatim>\<open>record[2]\<close>, \<^verbatim>\<open>record[3:]\<close>\<close>

text \<open>\<^verbatim>\<open>isinstance(record, dict)\<close>\<close>

fun is_dict :: "data_record \<Rightarrow> bool" where
  "is_dict (DictRec m p c d ex) = True"
| "is_dict (TupleRec m p c rest) = False"

text \<open>\<^verbatim>\<open>record['dataset_id'] if isinstance(record, dict) else 0\<close>\<close>

fun rec_dataset_id :: "data_record \<Rightarrow> int" where
  "rec_dataset_id (DictRec m p c d ex) = d"
| "rec_dataset_id (TupleRec m p c rest) = 0"

text \<open>\<^verbatim>\<open>record['obj_id'] if isinstance(record, dict) else record[1]\<close>\<close>

fun rec_obj_id :: "data_record \<Rightarrow> int" where
  "rec_obj_id (DictRec m p c d ex) = p"
| "rec_obj_id (TupleRec m p c rest) = p"

text \<open>\<^verbatim>\<open>record['cam_id'] if isinstance(record, dict) else record[2]\<close>\<close>

fun rec_cam_id :: "data_record \<Rightarrow> int" where
  "rec_cam_id (DictRec m p c d ex) = c"
| "rec_cam_id (TupleRec m p c rest) = c"

text \<open>\<^verbatim>\<open>record['img_path'] if isinstance(record, dict) else record[0]\<close>\<close>

fun rec_first_field :: "data_record \<Rightarrow> media" where
  "rec_first_field (DictRec m p c d ex) = m"
| "rec_first_field (TupleRec m p c rest) = m"

section \<open>Counting identities and cameras\<close>

text \<open>
  \<^verbatim>\<open>pids, cams = defaultdict(set), defaultdict(set)\<close>: a dictionary from dataset ids to sets.
  \<^verbatim>\<open>d[k].add(x)\<close> on a \<^verbatim>\<open>defaultdict(set)\<close> creates the empty set at a missing key first.
\<close>

definition dd_add :: "(int \<rightharpoonup> int set) \<Rightarrow> int \<Rightarrow> int \<Rightarrow> (int \<rightharpoonup> int set)" where
  "dd_add d k x = d(k \<mapsto> insert x (case d k of None \<Rightarrow> {} | Some s \<Rightarrow> s))"

text \<open>The loop of \<^verbatim>\<open>parse_data\<close>, with the two dictionaries as its state.\<close>

fun parse_loop ::
  "data_record list \<Rightarrow> (int \<rightharpoonup> int set) \<times> (int \<rightharpoonup> int set) \<Rightarrow>
     (int \<rightharpoonup> int set) \<times> (int \<rightharpoonup> int set)" where
  "parse_loop [] (pids, cams) = (pids, cams)"
| "parse_loop (record # data) (pids, cams) =
     (let dataset_id = rec_dataset_id record
      in parse_loop data
           (dd_add pids dataset_id (rec_obj_id record),
            dd_add cams dataset_id (rec_cam_id record)))"

text \<open>
  \<^verbatim>\<open>parse_data(data)\<close>: the dictionaries \<^verbatim>\<open>num_pids\<close> and \<^verbatim>\<open>num_cams\<close>, from dataset id to
  \<^verbatim>\<open>len\<close> of the set collected for it.
\<close>

definition parse_data :: "data_record list \<Rightarrow> (int \<rightharpoonup> nat) \<times> (int \<rightharpoonup> nat)" where
  "parse_data data =
     (let (pids, cams) = parse_loop data (Map.empty, Map.empty)
      in (map_option card \<circ> pids, map_option card \<circ> cams))"

definition get_num_pids :: "data_record list \<Rightarrow> (int \<rightharpoonup> nat)" where
  "get_num_pids data = fst (parse_data data)"

definition get_num_cams :: "data_record list \<Rightarrow> (int \<rightharpoonup> nat)" where
  "get_num_cams data = snd (parse_data data)"

text \<open>
  \<^verbatim>\<open>get_data_counts(data)\<close>: a dictionary from dataset id to a \<^verbatim>\<open>defaultdict(int)\<close> that
  counts the records of each identity.
\<close>

fun get_data_counts_loop ::
  "data_record list \<Rightarrow> (int \<rightharpoonup> (int \<rightharpoonup> nat)) \<Rightarrow> (int \<rightharpoonup> (int \<rightharpoonup> nat))" where
  "get_data_counts_loop [] counts = counts"
| "get_data_counts_loop (record # data) counts =
     (let dataset_id = rec_dataset_id record;
          inner = (case counts dataset_id of None \<Rightarrow> Map.empty | Some c \<Rightarrow> c);
          obj_id = rec_obj_id record
      in get_data_counts_loop data
           (counts(dataset_id \<mapsto>
              inner(obj_id \<mapsto> (case inner obj_id of None \<Rightarrow> 0 | Some n \<Rightarrow> n) + 1))))"

definition get_data_counts :: "data_record list \<Rightarrow> (int \<rightharpoonup> (int \<rightharpoonup> nat))" where
  "get_data_counts data = get_data_counts_loop data Map.empty"

section \<open>Errors\<close>

text \<open>
  The exceptions the modelled code can raise. \<^verbatim>\<open>ValueError\<close> carries which of the code's
  messages it was raised with.
\<close>

datatype value_error =
    Invalid_mode string
      \<comment> \<open>\<^verbatim>\<open>'Invalid mode. Got {}, but expected to be one of [train | query | gallery]'\<close>\<close>
  | Unknown_sample_method string
      \<comment> \<open>\<^verbatim>\<open>'Unknown sample method: {}'\<close>\<close>
  | Empty_population
      \<comment> \<open>raised by \<^verbatim>\<open>np.random.choice\<close> when asked to draw from an empty array\<close>

datatype error =
    KeyError | IndexError | TypeError | AttributeError | ZeroDivisionError | AssertionError
  | RuntimeError | ValueError value_error

section \<open>Relabelling query and gallery\<close>

text \<open>
  \<^verbatim>\<open>_get_obj_ids(data, junk_obj_ids, obj_ids=None)\<close> collects, per dataset id, the set of
  identity ids of the records whose identity is not junk.
\<close>

fun get_obj_ids_loop ::
  "data_record list \<Rightarrow> int list \<Rightarrow> (int \<rightharpoonup> int set) \<Rightarrow> (int \<rightharpoonup> int set)" where
  "get_obj_ids_loop [] junk_obj_ids obj_ids = obj_ids"
| "get_obj_ids_loop (record # data) junk_obj_ids obj_ids =
     (if rec_obj_id record \<in> set junk_obj_ids
      then get_obj_ids_loop data junk_obj_ids obj_ids
      else get_obj_ids_loop data junk_obj_ids
             (dd_add obj_ids (rec_dataset_id record) (rec_obj_id record)))"

definition get_obj_ids ::
  "data_record list \<Rightarrow> int list \<Rightarrow> (int \<rightharpoonup> int set) option \<Rightarrow> (int \<rightharpoonup> int set)" where
  "get_obj_ids data junk_obj_ids obj_ids =
     get_obj_ids_loop data junk_obj_ids
       (case obj_ids of None \<Rightarrow> Map.empty | Some m \<Rightarrow> m)"

text \<open>
  \<^verbatim>\<open>_relabel(data, junk_obj_ids, id2label_map, num_train_ids)\<close>. Both arguments are plain
  dictionaries, so \<^verbatim>\<open>id2label_map[dataset_id][obj_id]\<close> and \<^verbatim>\<open>num_train_ids[dataset_id]\<close>
  raise \<^verbatim>\<open>KeyError\<close> at a missing key. The shape of the output record is chosen from
  \<^verbatim>\<open>data[0]\<close>, not from the record at hand: item assignment on a tuple raises
  \<^verbatim>\<open>TypeError\<close>, and so does \<^verbatim>\<open>record[:1]\<close> on a dict (a slice is not hashable; interpreters
  from 3.12 on hash it and raise \<^verbatim>\<open>KeyError\<close> instead). The first argument of the loop is the
  whole of \<^verbatim>\<open>data\<close>.
\<close>

fun relabel_loop ::
  "data_record list \<Rightarrow> data_record list \<Rightarrow> int list \<Rightarrow> (int \<rightharpoonup> (int \<rightharpoonup> nat)) \<Rightarrow>
     (int \<rightharpoonup> nat) \<Rightarrow> data_record list \<Rightarrow> error + data_record list" where
  "relabel_loop data [] junk_obj_ids id2label_map num_train_ids out_data = Inr out_data"
| "relabel_loop data (record # rest) junk_obj_ids id2label_map num_train_ids out_data =
     (if rec_obj_id record \<in> set junk_obj_ids
      then relabel_loop data rest junk_obj_ids id2label_map num_train_ids out_data
      else
        let dataset_id = rec_dataset_id record in
        case id2label_map dataset_id of None \<Rightarrow> Inl KeyError | Some labels \<Rightarrow>
        case labels (rec_obj_id record) of None \<Rightarrow> Inl KeyError | Some label \<Rightarrow>
        case num_train_ids dataset_id of None \<Rightarrow> Inl KeyError | Some n \<Rightarrow>
        let obj_id = int label + int n in
        case data of [] \<Rightarrow> Inl IndexError | first # _ \<Rightarrow>
        if is_dict first
        then (case record of
                DictRec m p c d ex \<Rightarrow>
                  relabel_loop data rest junk_obj_ids id2label_map num_train_ids
                    (out_data @ [DictRec m obj_id c d ex])
              | TupleRec m p c etc \<Rightarrow> Inl TypeError)
        else (case record of
                TupleRec m p c etc \<Rightarrow>
                  relabel_loop data rest junk_obj_ids id2label_map num_train_ids
                    (out_data @ [TupleRec m obj_id c etc])
              | DictRec m p c d ex \<Rightarrow> Inl TypeError))"

definition relabel ::
  "data_record list \<Rightarrow> int list \<Rightarrow> (int \<rightharpoonup> (int \<rightharpoonup> nat)) \<Rightarrow> (int \<rightharpoonup> nat) \<Rightarrow>
     error + data_record list" where
  "relabel data junk_obj_ids id2label_map num_train_ids =
     relabel_loop data data junk_obj_ids id2label_map num_train_ids []"

section \<open>The dataset object\<close>

text \<open>
  The class of the object: \<^verbatim>\<open>Dataset\<close>, \<^verbatim>\<open>ImageDataset\<close> or \<^verbatim>\<open>VideoDataset\<close>; only the last
  has the attributes \<^verbatim>\<open>seq_len\<close> and \<^verbatim>\<open>sample_method\<close>.
\<close>

datatype kind = Dataset | ImageDataset | VideoDataset nat string

text \<open>
  The attributes that \<^verbatim>\<open>Dataset.__init__\<close> sets. \<^verbatim>\<open>transform\<close> is an opaque callable or
  \<^verbatim>\<open>None\<close>; the code only tests it against \<^verbatim>\<open>None\<close>, so the model keeps that test's
  outcome. \<^verbatim>\<open>junk_pids\<close> is the class attribute \<^verbatim>\<open>_junk_pids\<close>.
\<close>

record dataset =
  train :: "data_record list"
  query :: "data_record list"
  gallery :: "data_record list"
  has_transform :: bool
  mode :: string
  combineall :: bool
  verbose :: bool
  num_train_pids :: "int \<rightharpoonup> nat"
  num_train_cams :: "int \<rightharpoonup> nat"
  data_counts :: "int \<rightharpoonup> (int \<rightharpoonup> nat)"
  data :: "data_record list"
  junk_pids :: "int list"
  kind :: kind

text \<open>
  \<^verbatim>\<open>{obj_id: i for i, obj_id in enumerate(set(dataset_ids))}\<close>. The order in which Python
  iterates a set is fixed by the interpreter, not by the language; the model takes it as
  the parameter \<open>iter\<close>: \<open>iter dataset_id s\<close> is the list in which the set \<open>s\<close> kept for
  \<open>dataset_id\<close> is enumerated. Whatever the interpreter does, that list has every element
  of the set once (\<open>set_iteration\<close>).
\<close>

definition set_iteration :: "(int \<Rightarrow> int set \<Rightarrow> int list) \<Rightarrow> bool" where
  "set_iteration iter = (\<forall>d s. finite s \<longrightarrow> distinct (iter d s) \<and> set (iter d s) = s)"

definition enumerate_labels :: "int list \<Rightarrow> (int \<rightharpoonup> nat)" where
  "enumerate_labels xs = map_of (zip xs [0..<length xs])"

text \<open>
  \<^verbatim>\<open>combine_all(self)\<close>. \<^verbatim>\<open>copy.deepcopy(self.train)\<close> is a list of fresh records with the
  same contents; \<^verbatim>\<open>_relabel\<close> builds fresh records too. The method assigns \<^verbatim>\<open>self.train\<close>
  and \<^verbatim>\<open>self.num_train_pids\<close> and nothing else; when \<^verbatim>\<open>_relabel\<close> raises, nothing has been
  assigned.
\<close>

definition combine_all :: "(int \<Rightarrow> int set \<Rightarrow> int list) \<Rightarrow> dataset \<Rightarrow> error + dataset" where
  "combine_all iter self =
     (let combined = train self;
          new_obj_ids = get_obj_ids (query self) (junk_pids self) None;
          new_obj_ids = get_obj_ids (gallery self) (junk_pids self) (Some new_obj_ids);
          id2label_map =
            (\<lambda>dataset_id. case new_obj_ids dataset_id of
               None \<Rightarrow> None
             | Some dataset_ids \<Rightarrow> Some (enumerate_labels (iter dataset_id dataset_ids)))
      in case relabel (query self) (junk_pids self) id2label_map (num_train_pids self) of
           Inl e \<Rightarrow> Inl e
         | Inr from_query \<Rightarrow>
             (case relabel (gallery self) (junk_pids self) id2label_map (num_train_pids self) of
                Inl e \<Rightarrow> Inl e
              | Inr from_gallery \<Rightarrow>
                  (let combined = combined @ from_query @ from_gallery
                   in Inr (self\<lparr>train := combined, num_train_pids := get_num_pids combined\<rparr>))))"

text \<open>
  \<^verbatim>\<open>Dataset.__init__\<close>, for an object of class \<open>k\<close> whose class attribute \<^verbatim>\<open>_junk_pids\<close> is
  \<open>junk\<close>. \<open>init_attributes\<close> is the object after the assignments that come before
  \<^verbatim>\<open>if self.combineall\<close>; \<^verbatim>\<open>self.data\<close> is assigned after the mode is checked, and until
  then the model holds the empty list in that field. \<^verbatim>\<open>show_summary\<close> does nothing in
  \<^verbatim>\<open>Dataset\<close> and prints in \<^verbatim>\<open>ImageDataset\<close>; in \<^verbatim>\<open>VideoDataset\<close> it formats the dictionaries
  returned by \<^verbatim>\<open>parse_data\<close> with \<^verbatim>\<open>{:5d}\<close>, which raises \<^verbatim>\<open>TypeError\<close>.
\<close>

definition init_attributes ::
  "kind \<Rightarrow> int list \<Rightarrow> data_record list \<Rightarrow> data_record list \<Rightarrow> data_record list \<Rightarrow>
     bool \<Rightarrow> string \<Rightarrow> bool \<Rightarrow> bool \<Rightarrow> dataset" where
  "init_attributes k junk train0 query0 gallery0 transform0 mode0 combineall0 verbose0 =
     \<lparr>train = train0, query = query0, gallery = gallery0,
      has_transform = transform0, mode = mode0, combineall = combineall0,
      verbose = verbose0,
      num_train_pids = get_num_pids train0,
      num_train_cams = get_num_cams train0,
      data_counts = get_data_counts train0,
      data = [], junk_pids = junk, kind = k\<rparr>"

definition Dataset_init ::
  "(int \<Rightarrow> int set \<Rightarrow> int list) \<Rightarrow> kind \<Rightarrow> int list \<Rightarrow>
     data_record list \<Rightarrow> data_record list \<Rightarrow> data_record list \<Rightarrow>
     bool \<Rightarrow> string \<Rightarrow> bool \<Rightarrow> bool \<Rightarrow> error + dataset" where
  "Dataset_init iter k junk train0 query0 gallery0 transform0 mode0 combineall0 verbose0 =
     (let self = init_attributes k junk train0 query0 gallery0 transform0 mode0
                   combineall0 verbose0
      in case (if combineall0 then combine_all iter self else Inr self) of
           Inl e \<Rightarrow> Inl e
         | Inr self \<Rightarrow>
             (case (if mode0 = ''train'' then Inr (self\<lparr>data := train self\<rparr>)
                    else if mode0 = ''query'' then Inr (self\<lparr>data := query self\<rparr>)
                    else if mode0 = ''gallery'' then Inr (self\<lparr>data := gallery self\<rparr>)
                    else Inl (ValueError (Invalid_mode mode0))) of
                Inl e \<Rightarrow> Inl e
              | Inr self \<Rightarrow>
                  (if verbose0
                   then (case k of VideoDataset _ _ \<Rightarrow> Inl TypeError | _ \<Rightarrow> Inr self)
                   else Inr self)))"

text \<open>\<^verbatim>\<open>ImageDataset.__init__\<close> only calls the base constructor.\<close>

definition ImageDataset_init ::
  "(int \<Rightarrow> int set \<Rightarrow> int list) \<Rightarrow> int list \<Rightarrow>
     data_record list \<Rightarrow> data_record list \<Rightarrow> data_record list \<Rightarrow>
     bool \<Rightarrow> string \<Rightarrow> bool \<Rightarrow> bool \<Rightarrow> error + dataset" where
  "ImageDataset_init iter junk train0 query0 gallery0 transform0 mode0 combineall0 verbose0 =
     Dataset_init iter ImageDataset junk train0 query0 gallery0 transform0 mode0
       combineall0 verbose0"

text \<open>
  \<^verbatim>\<open>VideoDataset.__init__\<close> calls the base constructor, stores \<^verbatim>\<open>seq_len\<close> and
  \<^verbatim>\<open>sample_method\<close>, and then refuses a missing transform.
\<close>

definition VideoDataset_init ::
  "(int \<Rightarrow> int set \<Rightarrow> int list) \<Rightarrow> int list \<Rightarrow>
     data_record list \<Rightarrow> data_record list \<Rightarrow> data_record list \<Rightarrow>
     nat \<Rightarrow> string \<Rightarrow> bool \<Rightarrow> string \<Rightarrow> bool \<Rightarrow> bool \<Rightarrow> error + dataset" where
  "VideoDataset_init iter junk train0 query0 gallery0 seq_len0 sample_method0
       transform0 mode0 combineall0 verbose0 =
     (case Dataset_init iter (VideoDataset seq_len0 sample_method0) junk train0 query0 gallery0
             transform0 mode0 combineall0 verbose0 of
        Inl e \<Rightarrow> Inl e
      | Inr self \<Rightarrow> if \<not> has_transform self then Inl RuntimeError else Inr self)"

section \<open>Adding two datasets\<close>

text \<open>
  The body of the loop of \<^verbatim>\<open>__add__\<close> for one record of \<^verbatim>\<open>other.train\<close>, from the contents
  the record has when the iteration reaches it. The offsets are read from
  \<^verbatim>\<open>self.num_train_pids\<close> and \<^verbatim>\<open>self.num_train_cams\<close>, zero at a missing key. For a dict the
  two new ids are assigned to the record itself (\<^verbatim>\<open>record['obj_id'] = new_obj_id\<close>) and that
  same object is appended; for a tuple a new tuple is built. The result is the contents of
  the record appended to \<^verbatim>\<open>updated_train\<close>, and the contents of the record of \<^verbatim>\<open>other.train\<close>
  as the iteration leaves it.
\<close>

definition add_record :: "dataset \<Rightarrow> data_record \<Rightarrow> data_record \<times> data_record" where
  "add_record self record =
     (let dataset_id = rec_dataset_id record;
          num_train_pids0 = (case num_train_pids self dataset_id of None \<Rightarrow> 0 | Some n \<Rightarrow> n);
          new_obj_id = rec_obj_id record + int num_train_pids0;
          num_train_cams0 = (case num_train_cams self dataset_id of None \<Rightarrow> 0 | Some n \<Rightarrow> n);
          new_cam_id = rec_cam_id record + int num_train_cams0
      in case record of
           DictRec m p c d ex \<Rightarrow>
             (DictRec m new_obj_id new_cam_id d ex, DictRec m new_obj_id new_cam_id d ex)
         | TupleRec m p c etc \<Rightarrow>
             (TupleRec m new_obj_id new_cam_id etc, record))"

text \<open>
  The records of \<^verbatim>\<open>other.train\<close> are objects, and a dict among them is changed in place. The
  model keeps the objects in a store, the list \<open>objs\<close>, and \<^verbatim>\<open>other.train\<close> as the list of
  the positions in the store whose objects it holds, one per position of \<^verbatim>\<open>other.train\<close>:
  the same object may be held more than once. \<^verbatim>\<open>updated_train\<close> holds records of its own
  (the deep copies of \<^verbatim>\<open>self.train\<close>, and the tuples built by the loop) and the dict objects
  of \<^verbatim>\<open>other.train\<close> that the loop has appended.
\<close>

datatype entry = Own data_record | Shared nat

text \<open>The record that an entry of \<^verbatim>\<open>updated_train\<close> shows when the store is \<open>objs\<close>.\<close>

fun view :: "data_record list \<Rightarrow> entry \<Rightarrow> data_record" where
  "view objs (Own record) = record"
| "view objs (Shared p) = objs ! p"

text \<open>
  The loop over \<^verbatim>\<open>other.train\<close>: its state is the store and \<^verbatim>\<open>updated_train\<close>. A dict is read
  as the store has it at that moment, changed in the store, and appended as the object it
  is; a tuple gives a new tuple. Every position in \<^verbatim>\<open>other.train\<close> is a position of the
  store.
\<close>

fun add_loop ::
  "dataset \<Rightarrow> nat list \<Rightarrow> data_record list \<Rightarrow> entry list \<Rightarrow> data_record list \<times> entry list" where
  "add_loop self [] objs updated_train = (objs, updated_train)"
| "add_loop self (p # rest) objs updated_train =
     (let (updated_record, record_after) = add_record self (objs ! p)
      in if is_dict (objs ! p)
         then add_loop self rest (objs[p := record_after]) (updated_train @ [Shared p])
         else add_loop self rest objs (updated_train @ [Own updated_record]))"

text \<open>
  \<^verbatim>\<open>__add__(self, other)\<close>, with \<^verbatim>\<open>other.train\<close> given by the store \<open>objs\<close> and the positions
  \<open>other_train\<close>. \<^verbatim>\<open>updated_train\<close> starts as a deep copy of \<^verbatim>\<open>self.train\<close>. The result is
  built by \<^verbatim>\<open>ImageDataset\<close> when the first field of \<^verbatim>\<open>updated_train[0]\<close> is a string, else by
  \<^verbatim>\<open>VideoDataset\<close> with \<^verbatim>\<open>self.seq_len\<close> and \<^verbatim>\<open>self.sample_method\<close>, which only a
  \<^verbatim>\<open>VideoDataset\<close> has; both with \<^verbatim>\<open>combineall=False\<close> and \<^verbatim>\<open>verbose=False\<close>. Neither class
  overrides \<^verbatim>\<open>_junk_pids = []\<close>. The constructors read \<^verbatim>\<open>updated_train\<close> after the loop, as
  the store then shows it. The function returns what \<^verbatim>\<open>__add__\<close> returns or raises, together
  with the store as the call leaves it: the loop has run, and changed the records of
  \<^verbatim>\<open>other.train\<close>, before anything can be raised.
\<close>

definition Dataset_add_objects ::
  "(int \<Rightarrow> int set \<Rightarrow> int list) \<Rightarrow> dataset \<Rightarrow> data_record list \<Rightarrow> nat list \<Rightarrow>
     (error + dataset) \<times> data_record list" where
  "Dataset_add_objects iter self objs other_train =
     (let (objs_after, updated) = add_loop self other_train objs (map Own (train self));
          updated_train = map (view objs_after) updated;
          result =
            (case updated_train of
               [] \<Rightarrow> Inl IndexError
             | first # _ \<Rightarrow>
                 (case rec_first_field first of
                    Str _ \<Rightarrow>
                      ImageDataset_init iter [] updated_train (query self) (gallery self)
                        (has_transform self) (mode self) False False
                  | Seq _ \<Rightarrow>
                      (case kind self of
                         VideoDataset seq_len sample_method \<Rightarrow>
                           VideoDataset_init iter [] updated_train (query self) (gallery self)
                             seq_len sample_method (has_transform self) (mode self) False False
                       | _ \<Rightarrow> Inl AttributeError)))
      in (result, objs_after))"

text \<open>
  \<^verbatim>\<open>self + other\<close> for a dataset \<open>other\<close> in which each position of \<^verbatim>\<open>other.train\<close> holds an
  object of its own: the store is \<^verbatim>\<open>other.train\<close> itself. The second component is \<open>other\<close>
  with its train split as the call leaves it. Only the field \<open>train\<close> of that second
  component is tracked; \<^verbatim>\<open>other.data\<close>, which is the same list when the mode of \<^verbatim>\<open>other\<close> is
  \<^verbatim>\<open>'train'\<close>, is left as it was.
\<close>

definition Dataset_add ::
  "(int \<Rightarrow> int set \<Rightarrow> int list) \<Rightarrow> dataset \<Rightarrow> dataset \<Rightarrow> (error + dataset) \<times> dataset" where
  "Dataset_add iter self other =
     (let (result, objs_after) =
            Dataset_add_objects iter self (train other) [0..<length (train other)]
      in (result, other\<lparr>train := objs_after\<rparr>))"

section \<open>Sampling the frames of a tracklet\<close>

text \<open>
  The \<^verbatim>\<open>evenly\<close> branch computes with IEEE binary64 numbers: under
  \<^verbatim>\<open>from __future__ import division\<close> the step \<^verbatim>\<open>num_imgs / self.seq_len\<close> is a \<^verbatim>\<open>float\<close>, and
  \<^verbatim>\<open>np.arange\<close> with a float step works in \<^verbatim>\<open>float64\<close>. All the numbers involved are
  non-negative and far from the ends of the exponent range, so a double is given by its
  value: a natural number, or a mantissa \<open>m\<close> and an exponent \<open>e\<close> standing for \<open>m 2\<^sup>e\<close>.
  Rounding is to the nearest number with 53 significant bits, ties to the even mantissa.
\<close>

text \<open>The number of binary digits of a natural number.\<close>

fun bit_length :: "nat \<Rightarrow> nat" where
  "bit_length n = (if n = 0 then 0 else Suc (bit_length (n div 2)))"

declare bit_length.simps [simp del]

text \<open>The integer nearest to \<open>num / den\<close>, the even one of two equally near.\<close>

definition round_half_even :: "nat \<Rightarrow> nat \<Rightarrow> nat" where
  "round_half_even num den =
     (let q = num div den; r = num mod den
      in if den < 2 * r \<or> (2 * r = den \<and> odd q) then q + 1 else q)"

text \<open>
  The double nearest to a natural number: the conversion of a Python \<^verbatim>\<open>int\<close> to \<^verbatim>\<open>float\<close>,
  the true division of two \<^verbatim>\<open>int\<close>s whose exact quotient is that number, and the product
  of two whole doubles.
\<close>

definition double_of_nat :: "nat \<Rightarrow> nat" where
  "double_of_nat n = (let k = bit_length n - 53 in round_half_even n (2 ^ k) * 2 ^ k)"

text \<open>
  The quotient of two whole doubles \<open>a\<close> and \<open>b > 0\<close>, rounded: the exponent \<open>e\<close> is the one
  that puts \<open>a / (b 2\<^sup>e)\<close> between \<open>2\<^sup>5\<^sup>2\<close> and \<open>2\<^sup>5\<^sup>3\<close>, and the mantissa is that number
  rounded.
\<close>

definition double_div :: "nat \<Rightarrow> nat \<Rightarrow> nat \<times> int" where
  "double_div a b =
     (let e0 = int (bit_length a) - int (bit_length b) - 53;
          e = (if b * 2 ^ nat e0 * 2 ^ 53 \<le> a * 2 ^ nat (- e0) then e0 + 1 else e0)
      in (round_half_even (a * 2 ^ nat (- e)) (b * 2 ^ nat e), e))"

text \<open>The ceiling of the double \<open>m 2\<^sup>e\<close>.\<close>

fun double_ceil :: "nat \<times> int \<Rightarrow> nat" where
  "double_ceil (m, e) =
     (if 0 \<le> e then m * 2 ^ nat e else (m + 2 ^ nat (- e) - 1) div 2 ^ nat (- e))"

text \<open>
  \<^verbatim>\<open>np.arange(0, stop, step)\<close> for a Python \<^verbatim>\<open>int\<close> \<open>stop\<close> and a whole \<^verbatim>\<open>float\<close> \<open>step\<close>. The
  length is the ceiling of \<^verbatim>\<open>(stop - start) / step\<close>, a Python division of an \<^verbatim>\<open>int\<close> by a
  \<^verbatim>\<open>float\<close>: the \<^verbatim>\<open>int\<close> is converted, the quotient rounded, and a zero step raises
  \<^verbatim>\<open>ZeroDivisionError\<close>. The first element is \<^verbatim>\<open>start\<close>, the second \<^verbatim>\<open>start + step\<close>, and the
  element at \<open>i \<ge> 2\<close> is \<^verbatim>\<open>start + i*delta\<close> computed in doubles, with \<^verbatim>\<open>delta\<close> the
  difference of the first two.
\<close>

definition arange_step :: "nat \<Rightarrow> nat \<Rightarrow> error + int list" where
  "arange_step stop step =
     (if step = 0 then Inl ZeroDivisionError
      else
        let length = double_ceil (double_div (double_of_nat stop) step)
        in Inr (map (\<lambda>i. if i = 0 then 0
                          else if i = 1 then int step
                          else int (double_of_nat (double_of_nat i * step)))
                  [0..<length]))"

text \<open>
  The index selection of \<^verbatim>\<open>VideoDataset.__getitem__\<close>, from \<^verbatim>\<open>self.sample_method\<close>,
  \<^verbatim>\<open>num_imgs = len(img_paths)\<close> and \<^verbatim>\<open>self.seq_len\<close>. \<open>draw\<close> stands for what
  \<^verbatim>\<open>np.random.choice\<close> returns, which the code then sorts. \<^verbatim>\<open>num_imgs % self.seq_len\<close> raises
  \<^verbatim>\<open>ZeroDivisionError\<close> when \<^verbatim>\<open>seq_len\<close> is zero. After the subtraction \<^verbatim>\<open>num_imgs\<close> is a
  multiple of \<^verbatim>\<open>seq_len\<close>, so the exact quotient of \<^verbatim>\<open>num_imgs / self.seq_len\<close> is a whole
  number and the step is the double nearest to it. The \<^verbatim>\<open>assert\<close> of the \<^verbatim>\<open>evenly\<close> branch
  is kept as it is written. \<^verbatim>\<open>seq_len\<close> is a natural number here: a negative length is not
  modelled.
\<close>

definition resolve_indices :: "string \<Rightarrow> nat \<Rightarrow> nat \<Rightarrow> int list \<Rightarrow> error + int list" where
  "resolve_indices sample_method num_imgs seq_len draw =
     (if sample_method = ''random'' then
        (if num_imgs = 0 \<and> 0 < seq_len then Inl (ValueError Empty_population)
         else Inr (sort draw))
      else if sample_method = ''evenly'' then
        (if num_imgs \<ge> seq_len then
           (if seq_len = 0 then Inl ZeroDivisionError
            else
              let num_imgs = num_imgs - num_imgs mod seq_len;
                  step = double_of_nat (num_imgs div seq_len)
              in case arange_step num_imgs step of
                   Inl e \<Rightarrow> Inl e
                 | Inr indices \<Rightarrow>
                     if length indices = seq_len then Inr indices else Inl AssertionError)
         else
           let indices = map int [0..<num_imgs];
               num_pads = seq_len - num_imgs;
               indices = indices @ replicate num_pads (int num_imgs - 1)
           in if length indices = seq_len then Inr indices else Inl AssertionError)
      else if sample_method = ''all'' then Inr (map int [0..<num_imgs])
      else Inl (ValueError (Unknown_sample_method sample_method)))"

section \<open>Notions for stating the properties\<close>

text \<open>A record with its identity id replaced, and with identity and camera id replaced.\<close>

fun set_obj_id :: "data_record \<Rightarrow> int \<Rightarrow> data_record" where
  "set_obj_id (DictRec m p c d ex) q = DictRec m q c d ex"
| "set_obj_id (TupleRec m p c etc) q = TupleRec m q c etc"

fun set_ids :: "data_record \<Rightarrow> int \<Rightarrow> int \<Rightarrow> data_record" where
  "set_ids (DictRec m p c d ex) q k = DictRec m q k d ex"
| "set_ids (TupleRec m p c etc) q k = TupleRec m q k etc"

text \<open>The records of a split that \<^verbatim>\<open>combine_all\<close> keeps: those whose identity is not junk.\<close>

definition keep :: "int list \<Rightarrow> data_record list \<Rightarrow> data_record list" where
  "keep junk xs = filter (\<lambda>r. rec_obj_id r \<notin> set junk) xs"

text \<open>The distinct identity ids that the records of a split have under one dataset id.\<close>

definition ids_of :: "data_record list \<Rightarrow> int \<Rightarrow> int set" where
  "ids_of xs d = set (map rec_obj_id (filter (\<lambda>r. rec_dataset_id r = d) xs))"


text \<open>The entry of a dictionary of counts, zero at a missing key.\<close>

definition count_at :: "(int \<rightharpoonup> nat) \<Rightarrow> int \<Rightarrow> nat" where
  "count_at m d = (case m d of None \<Rightarrow> 0 | Some n \<Rightarrow> n)"

text \<open>
  What \<^verbatim>\<open>combine_all\<close> works with: the identity ids of the kept records of query and
  gallery under one dataset id; the position of an identity in the enumeration of that set,
  which is its entry in \<^verbatim>\<open>id2label_map\<close>; and a kept record with its new identity id, the
  label plus the entry of \<^verbatim>\<open>self.num_train_pids\<close>.
\<close>

definition new_ids :: "dataset \<Rightarrow> int \<Rightarrow> int set" where
  "new_ids self d = ids_of (keep (junk_pids self) (query self @ gallery self)) d"

definition label_of :: "(int \<Rightarrow> int set \<Rightarrow> int list) \<Rightarrow> dataset \<Rightarrow> int \<Rightarrow> int \<Rightarrow> nat" where
  "label_of iter self d x =
     (case enumerate_labels (iter d (new_ids self d)) x of None \<Rightarrow> 0 | Some i \<Rightarrow> i)"

definition relabelled :: "(int \<Rightarrow> int set \<Rightarrow> int list) \<Rightarrow> dataset \<Rightarrow> data_record \<Rightarrow> data_record" where
  "relabelled iter self r =
     set_obj_id r (int (label_of iter self (rec_dataset_id r) (rec_obj_id r)) +
                   int (count_at (num_train_pids self) (rec_dataset_id r)))"

text \<open>One admissible iteration order of sets, for the examples: ascending.\<close>

definition sorted_iteration :: "int \<Rightarrow> int set \<Rightarrow> int list" where
  "sorted_iteration d s = sorted_list_of_set s"

section \<open>The identity indexer counts distinct ids\<close>

lemma parse_loop_pids:
  "fst (parse_loop xs (pids, cams)) d =
     (if d \<in> rec_dataset_id ` set xs \<or> d \<in> dom pids
      then Some ((case pids d of None \<Rightarrow> {} | Some s \<Rightarrow> s) \<union>
                 rec_obj_id ` {r \<in> set xs. rec_dataset_id r = d})
      else None)"
proof (induction xs arbitrary: pids cams)
  case Nil
  then show ?case by (auto split: option.splits)
next
  case (Cons r xs)
  show ?case
    unfolding parse_loop.simps Let_def Cons.IH
    by (auto simp: dd_add_def split: option.splits)
qed

lemma parse_loop_cams:
  "snd (parse_loop xs (pids, cams)) d =
     (if d \<in> rec_dataset_id ` set xs \<or> d \<in> dom cams
      then Some ((case cams d of None \<Rightarrow> {} | Some s \<Rightarrow> s) \<union>
                 rec_cam_id ` {r \<in> set xs. rec_dataset_id r = d})
      else None)"
proof (induction xs arbitrary: pids cams)
  case Nil
  then show ?case by (auto split: option.splits)
next
  case (Cons r xs)
  show ?case
    unfolding parse_loop.simps Let_def Cons.IH
    by (auto simp: dd_add_def split: option.splits)
qed

lemma get_num_pids_eq:
  "get_num_pids xs d =
     (if d \<in> rec_dataset_id ` set xs
      then Some (card (rec_obj_id ` {r \<in> set xs. rec_dataset_id r = d}))
      else None)"
  using parse_loop_pids [of xs Map.empty Map.empty d]
  by (simp add: get_num_pids_def parse_data_def split_beta)

lemma get_num_cams_eq:
  "get_num_cams xs d =
     (if d \<in> rec_dataset_id ` set xs
      then Some (card (rec_cam_id ` {r \<in> set xs. rec_dataset_id r = d}))
      else None)"
  using parse_loop_cams [of xs Map.empty Map.empty d]
  by (simp add: get_num_cams_def parse_data_def split_beta)

text \<open>
  C5. For every split, \<^verbatim>\<open>parse_data\<close> returns two dictionaries whose keys are exactly the
  dataset ids present in the split; at each such key the first holds the number of distinct
  identity ids, the second the number of distinct camera ids, of the records with that
  dataset id. The function only reads the split: its result is a value computed from the
  list, and the list is not part of what it returns or changes.
\<close>

theorem parse_data_cardinality:
  "fst (parse_data xs) d =
     (if d \<in> set (map rec_dataset_id xs)
      then Some (card (set (map rec_obj_id (filter (\<lambda>r. rec_dataset_id r = d) xs))))
      else None) \<and>
   snd (parse_data xs) d =
     (if d \<in> set (map rec_dataset_id xs)
      then Some (card (set (map rec_cam_id (filter (\<lambda>r. rec_dataset_id r = d) xs))))
      else None)"
  using get_num_pids_eq [of xs d] get_num_cams_eq [of xs d]
  by (simp add: get_num_pids_def get_num_cams_def)

theorem parse_data_cardinality_witness:
  "fst (parse_data [TupleRec (Str ''a'') 0 0 [PyInt 2], DictRec (Str ''b'') 3 1 2 [],
                    DictRec (Str ''c'') 4 1 2 [], DictRec (Str ''d'') 4 0 2 []]) 2 = Some 2 \<and>
   snd (parse_data [TupleRec (Str ''a'') 0 0 [PyInt 2], DictRec (Str ''b'') 3 1 2 [],
                    DictRec (Str ''c'') 4 1 2 [], DictRec (Str ''d'') 4 0 2 []]) 2 = Some 2 \<and>
   fst (parse_data [TupleRec (Str ''a'') 0 0 [PyInt 2], DictRec (Str ''b'') 3 1 2 [],
                    DictRec (Str ''c'') 4 1 2 [], DictRec (Str ''d'') 4 0 2 []]) 0 = Some 1 \<and>
   fst (parse_data [TupleRec (Str ''a'') 0 0 [PyInt 2], DictRec (Str ''b'') 3 1 2 [],
                    DictRec (Str ''c'') 4 1 2 [], DictRec (Str ''d'') 4 0 2 []]) 1 = None"
  using
    parse_data_cardinality [of "[TupleRec (Str ''a'') 0 0 [PyInt 2], DictRec (Str ''b'') 3 1 2 [],
                    DictRec (Str ''c'') 4 1 2 [], DictRec (Str ''d'') 4 0 2 []]" 2]
    parse_data_cardinality [of "[TupleRec (Str ''a'') 0 0 [PyInt 2], DictRec (Str ''b'') 3 1 2 [],
                    DictRec (Str ''c'') 4 1 2 [], DictRec (Str ''d'') 4 0 2 []]" 0]
    parse_data_cardinality [of "[TupleRec (Str ''a'') 0 0 [PyInt 2], DictRec (Str ''b'') 3 1 2 [],
                    DictRec (Str ''c'') 4 1 2 [], DictRec (Str ''d'') 4 0 2 []]" 1]
  by simp

section \<open>What relabelling produces\<close>

lemma get_obj_ids_loop_eq:
  "get_obj_ids_loop xs junk acc d =
     (if d \<in> rec_dataset_id ` set (keep junk xs) \<or> d \<in> dom acc
      then Some ((case acc d of None \<Rightarrow> {} | Some s \<Rightarrow> s) \<union> ids_of (keep junk xs) d)
      else None)"
proof (induction xs arbitrary: acc)
  case Nil
  then show ?case by (auto simp: keep_def ids_of_def split: option.splits)
next
  case (Cons r xs)
  show ?case
  proof (cases "rec_obj_id r \<in> set junk")
    case True
    then show ?thesis
      by (simp add: Cons.IH keep_def ids_of_def)
  next
    case False
    then show ?thesis
      by (auto simp: Cons.IH dd_add_def keep_def ids_of_def split: option.splits)
  qed
qed

lemma keep_append: "keep junk (xs @ ys) = keep junk xs @ keep junk ys"
  by (simp add: keep_def)

lemma ids_of_append: "ids_of (xs @ ys) d = ids_of xs d \<union> ids_of ys d"
  by (simp add: ids_of_def)

lemma ids_of_empty: "d \<notin> rec_dataset_id ` set xs \<Longrightarrow> ids_of xs d = {}"
  by (auto simp: ids_of_def)

lemma finite_ids_of: "finite (ids_of xs d)"
  by (simp add: ids_of_def)

lemma get_obj_ids_None_eq:
  "get_obj_ids q junk None d =
     (if d \<in> rec_dataset_id ` set (keep junk q) then Some (ids_of (keep junk q) d) else None)"
  by (simp add: get_obj_ids_def get_obj_ids_loop_eq)

lemma new_obj_ids_eq:
  "get_obj_ids g junk (Some (get_obj_ids q junk None)) d =
     (if d \<in> rec_dataset_id ` set (keep junk (q @ g))
      then Some (ids_of (keep junk (q @ g)) d)
      else None)"
proof (cases "d \<in> rec_dataset_id ` set (keep junk q)")
  case True
  then show ?thesis
    by (simp add: get_obj_ids_def get_obj_ids_loop_eq get_obj_ids_None_eq [unfolded get_obj_ids_def]
        keep_append ids_of_append domIff image_Un)
next
  case False
  then show ?thesis
    by (simp add: get_obj_ids_def get_obj_ids_loop_eq get_obj_ids_None_eq [unfolded get_obj_ids_def]
        keep_append ids_of_append ids_of_empty domIff image_Un)
qed

lemma enumerate_labels_Some:
  "x \<in> set xs \<Longrightarrow> \<exists>i. enumerate_labels xs x = Some i \<and> i < length xs"
  unfolding enumerate_labels_def
  by (metis (no_types, lifting) diff_zero in_set_zipE length_upt map_of_SomeD map_of_zip_is_Some nth_mem set_zip nth_upt add_0 atLeastLessThan_iff set_upt)

lemma enumerate_labels_None:
  "x \<notin> set xs \<Longrightarrow> enumerate_labels xs x = None"
  unfolding enumerate_labels_def
  by (simp add: map_of_zip_is_None)

lemma enumerate_labels_nth:
  "distinct xs \<Longrightarrow> i < length xs \<Longrightarrow> enumerate_labels xs (xs ! i) = Some i"
  unfolding enumerate_labels_def
  by (simp add: map_of_zip_nth)

lemma enumerate_labels_bij:
  assumes "distinct xs"
  shows "bij_betw (\<lambda>x. the (enumerate_labels xs x)) (set xs) {0..<length xs}"
proof (rule bij_betw_byWitness [where f' = "\<lambda>i. xs ! i"])
  show "\<forall>a\<in>set xs. xs ! the (enumerate_labels xs a) = a"
    using assms by (metis enumerate_labels_nth in_set_conv_nth option.sel)
  show "\<forall>a'\<in>{0..<length xs}. the (enumerate_labels xs (xs ! a')) = a'"
    using assms by (simp add: enumerate_labels_nth)
  show "(\<lambda>x. the (enumerate_labels xs x)) ` set xs \<subseteq> {0..<length xs}"
    using assms by (metis (no_types, lifting) atLeastLessThan_iff enumerate_labels_nth image_subsetI in_set_conv_nth option.sel zero_le)
  show "(!) xs ` {0..<length xs} \<subseteq> set xs"
    by auto
qed

lemma relabel_loop_Inr:
  "relabel_loop whole rest junk m n out = Inr res \<Longrightarrow>
     res = out @ map (\<lambda>r. set_obj_id r (int (the (the (m (rec_dataset_id r)) (rec_obj_id r))) +
                                       int (the (n (rec_dataset_id r)))))
                 (keep junk rest)"
proof (induction rest arbitrary: out)
  case Nil
  then show ?case by (simp add: keep_def)
next
  case (Cons r rest)
  show ?case
  proof (cases "rec_obj_id r \<in> set junk")
    case True
    with Cons show ?thesis by (simp add: keep_def)
  next
    case False
    with Cons.prems obtain labels l k first others where
      m: "m (rec_dataset_id r) = Some labels" and l: "labels (rec_obj_id r) = Some l" and
      k: "n (rec_dataset_id r) = Some k" and w: "whole = first # others"
      by (auto simp: Let_def split: option.splits list.splits)
    from Cons.prems False m l k w
    have "relabel_loop whole rest junk m n (out @ [set_obj_id r (int l + int k)]) = Inr res"
      by (cases r; cases "is_dict first") (auto simp: Let_def)
    from Cons.IH [OF this] False m l k show ?thesis
      by (simp add: keep_def)
  qed
qed

lemma relabel_loop_succeeds:
  assumes "\<forall>r\<in>set (keep junk rest).
             (\<exists>labels. m (rec_dataset_id r) = Some labels \<and> labels (rec_obj_id r) \<noteq> None) \<and>
             n (rec_dataset_id r) \<noteq> None \<and>
             (\<exists>first others. whole = first # others \<and> is_dict r = is_dict first)"
  shows "\<exists>res. relabel_loop whole rest junk m n out = Inr res"
  using assms
proof (induction rest arbitrary: out)
  case Nil
  then show ?case by simp
next
  case (Cons r rest)
  show ?case
  proof (cases "rec_obj_id r \<in> set junk")
    case True
    with Cons show ?thesis by (simp add: keep_def)
  next
    case False
    with Cons.prems obtain labels l k first others where
      m: "m (rec_dataset_id r) = Some labels" and l: "labels (rec_obj_id r) = Some l" and
      k: "n (rec_dataset_id r) = Some k" and w: "whole = first # others" and
      sh: "is_dict r = is_dict first"
      by (auto simp: keep_def)
    have "\<exists>res. relabel_loop whole rest junk m n (out @ [set_obj_id r (int l + int k)]) = Inr res"
      using Cons.IH Cons.prems by (simp add: keep_def)
    with False m l k w sh show ?thesis
      by (cases r; cases first) (auto simp: Let_def)
  qed
qed

lemma ids_of_image: "ids_of xs d = rec_obj_id ` {r \<in> set xs. rec_dataset_id r = d}"
  by (auto simp: ids_of_def)

lemma get_num_pids_ids_of:
  "get_num_pids xs d =
     (if d \<in> rec_dataset_id ` set xs then Some (card (ids_of xs d)) else None)"
  by (simp add: get_num_pids_eq ids_of_image)

lemma relabel_eq:
  assumes "\<forall>r\<in>set (keep junk xs).
             (\<exists>labels. m (rec_dataset_id r) = Some labels \<and> labels (rec_obj_id r) \<noteq> None) \<and>
             n (rec_dataset_id r) \<noteq> None \<and>
             (\<forall>first\<in>set (take 1 xs). is_dict r = is_dict first)"
  shows "relabel xs junk m n =
           Inr (map (\<lambda>r. set_obj_id r (int (the (the (m (rec_dataset_id r)) (rec_obj_id r))) +
                                        int (the (n (rec_dataset_id r)))))
                  (keep junk xs))"
proof -
  have "\<forall>r\<in>set (keep junk xs). \<exists>first others. xs = first # others \<and> is_dict r = is_dict first"
  proof
    fix r assume r: "r \<in> set (keep junk xs)"
    then have "xs \<noteq> []" by (auto simp: keep_def)
    then obtain first others where xs: "xs = first # others" by (cases xs) auto
    with assms r have "is_dict r = is_dict first" by auto
    with xs show "\<exists>first others. xs = first # others \<and> is_dict r = is_dict first" by blast
  qed
  with assms have
    "\<forall>r\<in>set (keep junk xs).
       (\<exists>labels. m (rec_dataset_id r) = Some labels \<and> labels (rec_obj_id r) \<noteq> None) \<and>
       n (rec_dataset_id r) \<noteq> None \<and>
       (\<exists>first others. xs = first # others \<and> is_dict r = is_dict first)"
    by simp
  then have "\<exists>res. relabel_loop xs xs junk m n [] = Inr res"
    by (rule relabel_loop_succeeds)
  then obtain res where res: "relabel_loop xs xs junk m n [] = Inr res" ..
  from relabel_loop_Inr [OF this] res show ?thesis
    by (simp add: relabel_def)
qed

lemma relabel_loop_Inr_defined:
  "relabel_loop whole rest junk m n out = Inr res \<Longrightarrow>
     \<forall>r\<in>set (keep junk rest).
       (\<exists>labels. m (rec_dataset_id r) = Some labels \<and> labels (rec_obj_id r) \<noteq> None) \<and>
       n (rec_dataset_id r) \<noteq> None \<and>
       (\<exists>first others. whole = first # others \<and> is_dict r = is_dict first)"
proof (induction rest arbitrary: out)
  case Nil
  then show ?case by (simp add: keep_def)
next
  case (Cons r rest)
  show ?case
  proof (cases "rec_obj_id r \<in> set junk")
    case True
    with Cons show ?thesis by (simp add: keep_def)
  next
    case False
    with Cons.prems obtain labels l k first others where
      m: "m (rec_dataset_id r) = Some labels" and l: "labels (rec_obj_id r) = Some l" and
      k: "n (rec_dataset_id r) = Some k" and w: "whole = first # others"
      by (auto simp: Let_def split: option.splits list.splits)
    from Cons.prems False m l k w
    have step: "relabel_loop whole rest junk m n (out @ [set_obj_id r (int l + int k)]) = Inr res"
      and sh: "is_dict r = is_dict first"
      by (cases r; cases "is_dict first"; auto simp: Let_def)+
    from Cons.IH [OF step] False m l k w sh show ?thesis
      by (simp add: keep_def)
  qed
qed

lemma id2label_map_eq:
  "(case get_obj_ids g junk (Some (get_obj_ids q junk None)) d of
      None \<Rightarrow> None
    | Some dataset_ids \<Rightarrow> Some (enumerate_labels (iter d dataset_ids))) =
   (if d \<in> rec_dataset_id ` set (keep junk (q @ g))
    then Some (enumerate_labels (iter d (ids_of (keep junk (q @ g)) d)))
    else None)"
  by (simp add: new_obj_ids_eq)

lemma combine_all_Inr:
  assumes "combine_all iter self = Inr self'"
  shows "self' = self\<lparr>train := train self @ map (relabelled iter self)
                                  (keep (junk_pids self) (query self @ gallery self)),
                      num_train_pids := get_num_pids (train self @ map (relabelled iter self)
                                  (keep (junk_pids self) (query self @ gallery self)))\<rparr>"
    and "\<forall>r\<in>set (keep (junk_pids self) (query self @ gallery self)).
           num_train_pids self (rec_dataset_id r) \<noteq> None"
proof -
  define junk where "junk = junk_pids self"
  define m where "m = (\<lambda>d. if d \<in> rec_dataset_id ` set (keep junk (query self @ gallery self))
    then Some (enumerate_labels (iter d (ids_of (keep junk (query self @ gallery self)) d)))
    else None)"
  from assms obtain fq fg where
    fq: "relabel (query self) junk m (num_train_pids self) = Inr fq" and
    fg: "relabel (gallery self) junk m (num_train_pids self) = Inr fg" and
    s: "self' = self\<lparr>train := train self @ fq @ fg,
                      num_train_pids := get_num_pids (train self @ fq @ fg)\<rparr>"
    unfolding combine_all_def Let_def id2label_map_eq junk_def m_def
    by (auto split: sum.splits)
  have new: "set_obj_id r (int (the (the (m (rec_dataset_id r)) (rec_obj_id r))) +
                 int (the (num_train_pids self (rec_dataset_id r)))) = relabelled iter self r"
    if "\<exists>labels. m (rec_dataset_id r) = Some labels \<and> labels (rec_obj_id r) \<noteq> None"
       "num_train_pids self (rec_dataset_id r) \<noteq> None" for r
    using that
    by (auto simp: relabelled_def label_of_def new_ids_def m_def junk_def count_at_def
        split: option.splits if_splits)
  have dq: "\<forall>r\<in>set (keep junk (query self)).
              (\<exists>labels. m (rec_dataset_id r) = Some labels \<and> labels (rec_obj_id r) \<noteq> None) \<and>
              num_train_pids self (rec_dataset_id r) \<noteq> None"
    using relabel_loop_Inr_defined [OF fq [unfolded relabel_def]] by blast
  have dg: "\<forall>r\<in>set (keep junk (gallery self)).
              (\<exists>labels. m (rec_dataset_id r) = Some labels \<and> labels (rec_obj_id r) \<noteq> None) \<and>
              num_train_pids self (rec_dataset_id r) \<noteq> None"
    using relabel_loop_Inr_defined [OF fg [unfolded relabel_def]] by blast
  from dq dg show "\<forall>r\<in>set (keep (junk_pids self) (query self @ gallery self)).
           num_train_pids self (rec_dataset_id r) \<noteq> None"
    by (auto simp: keep_append junk_def)
  have "fq = map (relabelled iter self) (keep junk (query self))"
    using relabel_loop_Inr [OF fq [unfolded relabel_def]] dq
    by (simp add: new cong: map_cong)
  moreover have "fg = map (relabelled iter self) (keep junk (gallery self))"
    using relabel_loop_Inr [OF fg [unfolded relabel_def]] dg
    by (simp add: new cong: map_cong)
  ultimately show "self' = self\<lparr>train := train self @ map (relabelled iter self)
                                  (keep (junk_pids self) (query self @ gallery self)),
                      num_train_pids := get_num_pids (train self @ map (relabelled iter self)
                                  (keep (junk_pids self) (query self @ gallery self)))\<rparr>"
    using s by (simp add: keep_append junk_def)
qed

lemma set_iteration_sorted: "set_iteration sorted_iteration"
  by (simp add: set_iteration_def sorted_iteration_def)

lemma label_of_bij:
  assumes "set_iteration iter"
  shows "bij_betw (label_of iter self d) (new_ids self d) {0..<card (new_ids self d)}"
proof -
  define xs where "xs = iter d (new_ids self d)"
  have fin: "finite (new_ids self d)" by (simp add: new_ids_def finite_ids_of)
  with assms have d: "distinct xs" and s: "set xs = new_ids self d"
    by (simp_all add: set_iteration_def xs_def)
  then have len: "length xs = card (new_ids self d)"
    using distinct_card by fastforce
  have "bij_betw (\<lambda>x. the (enumerate_labels xs x)) (set xs) {0..<length xs}"
    using d by (rule enumerate_labels_bij)
  moreover have "\<forall>x\<in>set xs. the (enumerate_labels xs x) = label_of iter self d x"
    by (auto simp: label_of_def xs_def dest: enumerate_labels_Some split: option.splits)
  ultimately have "bij_betw (label_of iter self d) (set xs) {0..<length xs}"
    using bij_betw_cong by fastforce
  with s len show ?thesis by simp
qed

lemma combine_all_succeeds:
  assumes it: "set_iteration iter"
    and n: "\<forall>r\<in>set (keep (junk_pids self) (query self @ gallery self)).
              num_train_pids self (rec_dataset_id r) \<noteq> None"
    and shq: "\<forall>r\<in>set (keep (junk_pids self) (query self)).
              \<forall>first\<in>set (take 1 (query self)). is_dict r = is_dict first"
    and shg: "\<forall>r\<in>set (keep (junk_pids self) (gallery self)).
              \<forall>first\<in>set (take 1 (gallery self)). is_dict r = is_dict first"
  shows "\<exists>self'. combine_all iter self = Inr self'"
proof -
  define junk where "junk = junk_pids self"
  define m where "m = (\<lambda>d. if d \<in> rec_dataset_id ` set (keep junk (query self @ gallery self))
    then Some (enumerate_labels (iter d (ids_of (keep junk (query self @ gallery self)) d)))
    else None)"
  have lab: "\<exists>labels. m (rec_dataset_id r) = Some labels \<and> labels (rec_obj_id r) \<noteq> None"
    if r: "r \<in> set (keep junk (query self @ gallery self))" for r
  proof -
    let ?ids = "ids_of (keep junk (query self @ gallery self)) (rec_dataset_id r)"
    have "rec_obj_id r \<in> ?ids" using r by (auto simp: ids_of_def)
    moreover have "set (iter (rec_dataset_id r) ?ids) = ?ids"
      using it finite_ids_of by (simp add: set_iteration_def)
    ultimately have "enumerate_labels (iter (rec_dataset_id r) ?ids) (rec_obj_id r) \<noteq> None"
      using enumerate_labels_Some by fastforce
    with r show ?thesis by (auto simp: m_def)
  qed
  have "\<exists>fq. relabel (query self) junk m (num_train_pids self) = Inr fq"
    using relabel_eq [of junk "query self" m "num_train_pids self"] lab n shq
    by (simp add: keep_append junk_def)
  moreover have "\<exists>fg. relabel (gallery self) junk m (num_train_pids self) = Inr fg"
    using relabel_eq [of junk "gallery self" m "num_train_pids self"] lab n shg
    by (simp add: keep_append junk_def)
  ultimately show ?thesis
    unfolding combine_all_def Let_def id2label_map_eq junk_def [symmetric] m_def [symmetric]
    by auto
qed

lemma count_at_get_num_pids: "count_at (get_num_pids xs) d = card (ids_of xs d)"
  by (simp add: count_at_def get_num_pids_ids_of ids_of_empty)

lemma rec_dataset_id_set_obj_id [simp]: "rec_dataset_id (set_obj_id r q) = rec_dataset_id r"
  by (cases r) simp_all

lemma rec_obj_id_set_obj_id [simp]: "rec_obj_id (set_obj_id r q) = q"
  by (cases r) simp_all

lemma rec_cam_id_set_obj_id [simp]: "rec_cam_id (set_obj_id r q) = rec_cam_id r"
  by (cases r) simp_all

lemma is_dict_set_obj_id [simp]: "is_dict (set_obj_id r q) = is_dict r"
  by (cases r) simp_all


section \<open>Folding query and gallery into train\<close>

text \<open>
  C1, as the code has it. \<^verbatim>\<open>_relabel\<close> reads \<^verbatim>\<open>num_train_ids[dataset_id]\<close> from a plain
  dictionary and picks the shape of its output from \<^verbatim>\<open>data[0]\<close>, so non-empty splits are not
  enough for \<^verbatim>\<open>combine_all\<close> to return. Let the object hold the counts of its train split
  (as it does when \<^verbatim>\<open>__init__\<close> calls \<^verbatim>\<open>combine_all\<close>), let every kept record of query and
  gallery have a dataset id that occurs in train, and the shape (dict or tuple) of the first
  record of its split. Then, for every iteration order of sets, \<^verbatim>\<open>combine_all\<close> returns; the
  new train split is the old one, followed by the kept records of query, followed by the
  kept records of gallery, each with its identity id replaced by its label plus the number
  of distinct train identities of its dataset id; query and gallery are as before; the
  identity counts are those of the new train split; and for each dataset id the labels map
  the kept identities one-to-one onto \<open>0, \<dots>, n - 1\<close>.
\<close>

theorem combine_all_merges:
  assumes "set_iteration iter"
    and "num_train_pids self = get_num_pids (train self)"
    and "\<forall>r\<in>set (keep (junk_pids self) (query self @ gallery self)).
           rec_dataset_id r \<in> set (map rec_dataset_id (train self))"
    and "\<forall>r\<in>set (keep (junk_pids self) (query self)).
           \<forall>first\<in>set (take 1 (query self)). is_dict r = is_dict first"
    and "\<forall>r\<in>set (keep (junk_pids self) (gallery self)).
           \<forall>first\<in>set (take 1 (gallery self)). is_dict r = is_dict first"
  shows "\<exists>self'.
           combine_all iter self = Inr self' \<and>
           train self' =
             train self @
             map (\<lambda>r. set_obj_id r (int (label_of iter self (rec_dataset_id r) (rec_obj_id r)) +
                                     int (card (ids_of (train self) (rec_dataset_id r)))))
               (keep (junk_pids self) (query self)) @
             map (\<lambda>r. set_obj_id r (int (label_of iter self (rec_dataset_id r) (rec_obj_id r)) +
                                     int (card (ids_of (train self) (rec_dataset_id r)))))
               (keep (junk_pids self) (gallery self)) \<and>
           query self' = query self \<and> gallery self' = gallery self \<and>
           num_train_pids self' = get_num_pids (train self') \<and>
           (\<forall>d. bij_betw (label_of iter self d) (new_ids self d) {0..<card (new_ids self d)})"
proof -
  from assms(2,3) have
    "\<forall>r\<in>set (keep (junk_pids self) (query self @ gallery self)).
       num_train_pids self (rec_dataset_id r) \<noteq> None"
    by (simp add: get_num_pids_ids_of)
  from combine_all_succeeds [OF assms(1) this assms(4,5)]
  obtain self' where ok: "combine_all iter self = Inr self'" ..
  have "relabelled iter self =
          (\<lambda>r. set_obj_id r (int (label_of iter self (rec_dataset_id r) (rec_obj_id r)) +
                              int (card (ids_of (train self) (rec_dataset_id r)))))"
    by (rule ext) (simp add: relabelled_def assms(2) count_at_get_num_pids)
  with combine_all_Inr(1) [OF ok] label_of_bij [OF assms(1)] ok show ?thesis
    by (simp add: keep_append)
qed

text \<open>
  The example of the specification: \<^verbatim>\<open>train=[(_,0,0)]\<close>, \<^verbatim>\<open>query=[(_,1,0)]\<close>,
  \<^verbatim>\<open>gallery=[(_,2,0)]\<close>. The combined train split has three records and the two appended
  identities are 1 and 2.
\<close>

theorem combine_all_merges_witness:
  "(\<exists>self'.
      combine_all sorted_iteration
        (init_attributes ImageDataset [] [TupleRec (Str ''a'') 0 0 []]
           [TupleRec (Str ''b'') 1 0 []] [TupleRec (Str ''c'') 2 0 []]
           False ''train'' True False) = Inr self' \<and>
      train self' = [TupleRec (Str ''a'') 0 0 [], TupleRec (Str ''b'') 1 0 [],
                     TupleRec (Str ''c'') 2 0 []] \<and>
      length (train self') = 3 \<and>
      num_train_pids self' 0 = Some 3)"
proof -
  let ?self = "init_attributes ImageDataset [] [TupleRec (Str ''a'') 0 0 []]
           [TupleRec (Str ''b'') 1 0 []] [TupleRec (Str ''c'') 2 0 []]
           False ''train'' True False"
  have ids: "new_ids ?self 0 = {1, 2}"
    by (auto simp: new_ids_def init_attributes_def keep_def ids_of_def)
  have l1: "label_of sorted_iteration ?self 0 1 = 0" and l2: "label_of sorted_iteration ?self 0 2 = 1"
    by (simp_all add: label_of_def ids sorted_iteration_def enumerate_labels_def)
  from combine_all_merges [of sorted_iteration ?self, OF set_iteration_sorted]
  obtain self' where
    "combine_all sorted_iteration ?self = Inr self'"
    "train self' =
       train ?self @
       map (\<lambda>r. set_obj_id r (int (label_of sorted_iteration ?self (rec_dataset_id r) (rec_obj_id r)) +
                               int (card (ids_of (train ?self) (rec_dataset_id r)))))
         (keep (junk_pids ?self) (query ?self)) @
       map (\<lambda>r. set_obj_id r (int (label_of sorted_iteration ?self (rec_dataset_id r) (rec_obj_id r)) +
                               int (card (ids_of (train ?self) (rec_dataset_id r)))))
         (keep (junk_pids ?self) (gallery ?self))"
    "num_train_pids self' = get_num_pids (train self')"
    by (auto simp: init_attributes_def keep_def)
  then show ?thesis
    by (simp add: init_attributes_def keep_def ids_of_def l1 [unfolded init_attributes_def]
        l2 [unfolded init_attributes_def] get_num_pids_ids_of)
qed

text \<open>The same example under any iteration order of sets, and any paths.\<close>

lemma combine_all_example_any_order:
  assumes "set_iteration iter"
  shows "\<exists>self'.
           combine_all iter
             (init_attributes k [] [TupleRec a 0 0 e1] [TupleRec b 1 0 e2] [TupleRec c 2 0 e3]
                tf m ca vb) = Inr self' \<and>
           length (train self') = 3 \<and>
           set (map rec_obj_id (drop 1 (train self'))) = {1, 2}"
proof -
  let ?self = "init_attributes k [] [TupleRec a 0 0 e1] [TupleRec b 1 0 e2] [TupleRec c 2 0 e3]
                tf m ca vb"
  have "\<exists>self'. combine_all iter ?self = Inr self'"
    using assms
    by (rule combine_all_succeeds)
       (simp_all add: init_attributes_def keep_def get_num_pids_ids_of)
  then obtain self' where ok: "combine_all iter ?self = Inr self'" ..
  from combine_all_Inr(1) [OF ok]
  have tr: "train self' =
      [TupleRec a 0 0 e1, relabelled iter ?self (TupleRec b 1 0 e2),
       relabelled iter ?self (TupleRec c 2 0 e3)]"
    by (simp add: init_attributes_def keep_def)
  have ids: "new_ids ?self 0 = {1, 2}"
    by (auto simp: new_ids_def init_attributes_def keep_def ids_of_def)
  have "bij_betw (label_of iter ?self 0) (new_ids ?self 0) {0..<card (new_ids ?self 0)}"
    using assms by (rule label_of_bij)
  then have "label_of iter ?self 0 ` {1, 2} = {0..<2}"
    by (simp add: ids bij_betw_def numeral_2_eq_2)
  then have "(\<lambda>n. int n + 1) ` label_of iter ?self 0 ` {1, 2} = (\<lambda>n. int n + 1) ` {0..<2}"
    by simp
  also have "\<dots> = {1, 2}"
    by (auto simp: atLeast0_lessThan_Suc numeral_2_eq_2)
  finally have "{int (label_of iter ?self 0 1) + 1, int (label_of iter ?self 0 2) + 1} = {1, 2}"
    by simp
  moreover have "count_at (num_train_pids ?self) 0 = 1"
    by (simp add: init_attributes_def count_at_get_num_pids ids_of_def)
  ultimately have "set (map rec_obj_id (drop 1 (train self'))) = {1, 2}"
    by (simp add: tr relabelled_def)
  with ok tr show ?thesis by simp
qed

text \<open>
  Three non-empty splits on which \<^verbatim>\<open>combine_all\<close> raises: a query record whose dataset id
  no train record has (\<^verbatim>\<open>KeyError\<close>), and a query split whose second record is a tuple while
  its first is a dict (\<^verbatim>\<open>TypeError\<close>).
\<close>

theorem combine_all_missing_dataset_id:
  "combine_all sorted_iteration
     (init_attributes ImageDataset [] [DictRec (Str ''a'') 0 0 0 []]
        [DictRec (Str ''b'') 1 0 1 []] [DictRec (Str ''c'') 2 0 0 []]
        False ''train'' True False) = Inl KeyError \<and>
   combine_all sorted_iteration
     (init_attributes ImageDataset [] [TupleRec (Str ''a'') 0 0 []]
        [DictRec (Str ''b'') 1 0 0 [], TupleRec (Str ''c'') 2 0 []] [TupleRec (Str ''d'') 3 0 []]
        False ''train'' True False) = Inl TypeError \<and>
   Dataset_init sorted_iteration ImageDataset [] [DictRec (Str ''a'') 0 0 0 []]
     [DictRec (Str ''b'') 1 0 1 []] [DictRec (Str ''c'') 2 0 0 []]
     False ''train'' True False = Inl KeyError"
  by (simp add: Dataset_init_def combine_all_def init_attributes_def get_obj_ids_def relabel_def
      dd_add_def enumerate_labels_def sorted_iteration_def get_num_pids_def parse_data_def)

text \<open>
  C3, as the code has it. The new identity ids start at the number of distinct train
  identities of the dataset id. They stay clear of the train identities when each train
  identity id is below that number, as it is for the dense labels \<open>0, \<dots>, n - 1\<close>: then no
  appended record has the identity id of a train record with the same dataset id.
\<close>

theorem combine_all_no_collision:
  assumes "combine_all iter self = Inr self'"
    and "num_train_pids self = get_num_pids (train self)"
    and "\<forall>t\<in>set (train self).
           rec_obj_id t < int (card (ids_of (train self) (rec_dataset_id t)))"
  shows "take (length (train self)) (train self') = train self \<and>
         (\<forall>new\<in>set (drop (length (train self)) (train self')). \<forall>t\<in>set (train self).
            rec_dataset_id new = rec_dataset_id t \<longrightarrow> rec_obj_id new \<noteq> rec_obj_id t)"
proof -
  let ?kept = "keep (junk_pids self) (query self @ gallery self)"
  from combine_all_Inr(1) [OF assms(1)]
  have tr: "train self' = train self @ map (relabelled iter self) ?kept"
    by simp
  have "rec_obj_id (relabelled iter self r) \<noteq> rec_obj_id t"
    if "t \<in> set (train self)" "rec_dataset_id (relabelled iter self r) = rec_dataset_id t" for r t
  proof -
    from that(2) have d: "rec_dataset_id r = rec_dataset_id t"
      by (simp add: relabelled_def)
    have "int (card (ids_of (train self) (rec_dataset_id t))) \<le> rec_obj_id (relabelled iter self r)"
      by (simp add: relabelled_def d assms(2) count_at_get_num_pids)
    with assms(3) that(1) show ?thesis by fastforce
  qed
  with tr show ?thesis by auto
qed

theorem combine_all_no_collision_witness:
  "take 2 (case combine_all sorted_iteration
        (init_attributes ImageDataset [] [TupleRec (Str ''a'') 0 0 [], TupleRec (Str ''b'') 1 0 []]
           [TupleRec (Str ''c'') 0 0 []] [TupleRec (Str ''d'') 1 0 []]
           False ''train'' True False) of Inr self' \<Rightarrow> train self' | Inl e \<Rightarrow> []) =
     [TupleRec (Str ''a'') 0 0 [], TupleRec (Str ''b'') 1 0 []] \<and>
   map rec_obj_id (drop 2 (case combine_all sorted_iteration
        (init_attributes ImageDataset [] [TupleRec (Str ''a'') 0 0 [], TupleRec (Str ''b'') 1 0 []]
           [TupleRec (Str ''c'') 0 0 []] [TupleRec (Str ''d'') 1 0 []]
           False ''train'' True False) of Inr self' \<Rightarrow> train self' | Inl e \<Rightarrow> [])) = [2, 3]"
proof -
  let ?self = "init_attributes ImageDataset [] [TupleRec (Str ''a'') 0 0 [], TupleRec (Str ''b'') 1 0 []]
           [TupleRec (Str ''c'') 0 0 []] [TupleRec (Str ''d'') 1 0 []]
           False ''train'' True False"
  have ev: "combine_all sorted_iteration ?self =
      Inr (?self\<lparr>train := [TupleRec (Str ''a'') 0 0 [], TupleRec (Str ''b'') 1 0 [],
                              TupleRec (Str ''c'') 2 0 [], TupleRec (Str ''d'') 3 0 []],
                    num_train_pids := get_num_pids [TupleRec (Str ''a'') 0 0 [], TupleRec (Str ''b'') 1 0 [],
                              TupleRec (Str ''c'') 2 0 [], TupleRec (Str ''d'') 3 0 []]\<rparr>)"
    by (simp add: combine_all_def init_attributes_def get_obj_ids_def relabel_def dd_add_def
      enumerate_labels_def sorted_iteration_def get_num_pids_def parse_data_def)
  have inv: "num_train_pids ?self = get_num_pids (train ?self)"
    by (simp add: init_attributes_def)
  have dense: "\<forall>t\<in>set (train ?self).
      rec_obj_id t < int (card (ids_of (train ?self) (rec_dataset_id t)))"
    by (simp add: init_attributes_def ids_of_def)
  from combine_all_no_collision [OF ev inv dense] show ?thesis
    unfolding ev by (simp add: init_attributes_def)
qed

text \<open>
  Without that, the ids collide: one train identity with the id 1, and the identity 7 of
  query and gallery is relabelled to \<open>0 + 1\<close>.
\<close>

theorem combine_all_collision:
  "map_sum id train
     (combine_all sorted_iteration
        (init_attributes ImageDataset [] [TupleRec (Str ''a'') 1 0 []]
           [TupleRec (Str ''b'') 7 0 []] [TupleRec (Str ''c'') 7 0 []]
           False ''train'' True False)) =
   Inr [TupleRec (Str ''a'') 1 0 [], TupleRec (Str ''b'') 1 0 [], TupleRec (Str ''c'') 1 0 []] \<and>
   map_sum id train
     (Dataset_init sorted_iteration ImageDataset [] [TupleRec (Str ''a'') 1 0 []]
        [TupleRec (Str ''b'') 7 0 []] [TupleRec (Str ''c'') 7 0 []]
        False ''train'' True False) =
   Inr [TupleRec (Str ''a'') 1 0 [], TupleRec (Str ''b'') 1 0 [], TupleRec (Str ''c'') 1 0 []]"
  by (simp add: Dataset_init_def combine_all_def init_attributes_def get_obj_ids_def relabel_def
      dd_add_def enumerate_labels_def sorted_iteration_def get_num_pids_def parse_data_def)

text \<open>
  C6. Whenever \<^verbatim>\<open>combine_all\<close> returns, the records it appends to train are, in order, the
  records of query and then of gallery whose identity id is not in \<^verbatim>\<open>_junk_pids\<close>, each with
  a new identity id and nothing else changed: no record of query or gallery with a junk
  identity is among them. (When \<^verbatim>\<open>combine_all\<close> raises, it has assigned nothing.)
\<close>

theorem combine_all_drops_junk:
  assumes "combine_all iter self = Inr self'"
  shows "train self' =
           train self @
           map (\<lambda>r. set_obj_id r (int (label_of iter self (rec_dataset_id r) (rec_obj_id r)) +
                                   int (count_at (num_train_pids self) (rec_dataset_id r))))
             (filter (\<lambda>r. rec_obj_id r \<notin> set (junk_pids self)) (query self @ gallery self))"
  using combine_all_Inr(1) [OF assms]
  by (simp add: keep_def relabelled_def [abs_def])

theorem combine_all_drops_junk_witness:
  "map_sum id train
     (combine_all sorted_iteration
        (init_attributes ImageDataset [0, - 1] [TupleRec (Str ''a'') 0 0 []]
           [TupleRec (Str ''b'') (- 1) 0 [], TupleRec (Str ''c'') 5 1 []]
           [TupleRec (Str ''d'') 0 2 [], TupleRec (Str ''e'') 5 3 [], TupleRec (Str ''f'') (- 1) 3 []]
           False ''train'' True False)) =
   Inr [TupleRec (Str ''a'') 0 0 [], TupleRec (Str ''c'') 1 1 [], TupleRec (Str ''e'') 1 3 []]"
proof -
  let ?self = "init_attributes ImageDataset [0, - 1] [TupleRec (Str ''a'') 0 0 []]
           [TupleRec (Str ''b'') (- 1) 0 [], TupleRec (Str ''c'') 5 1 []]
           [TupleRec (Str ''d'') 0 2 [], TupleRec (Str ''e'') 5 3 [], TupleRec (Str ''f'') (- 1) 3 []]
           False ''train'' True False"
  obtain self' where ev: "combine_all sorted_iteration ?self = Inr self'"
    by (simp add: combine_all_def init_attributes_def get_obj_ids_def relabel_def dd_add_def
      enumerate_labels_def sorted_iteration_def get_num_pids_def parse_data_def)
  have "new_ids ?self 0 = {5}"
    by (simp add: new_ids_def init_attributes_def keep_def ids_of_def)
  then have l: "label_of sorted_iteration ?self 0 5 = 0"
    by (simp add: label_of_def sorted_iteration_def enumerate_labels_def)
  from combine_all_drops_junk [OF ev]
  have "train self' = [TupleRec (Str ''a'') 0 0 [], TupleRec (Str ''c'') 1 1 [], TupleRec (Str ''e'') 1 3 []]"
    by (simp add: l [unfolded init_attributes_def] init_attributes_def count_at_get_num_pids
        ids_of_def)
  with ev show ?thesis by simp
qed

section \<open>Evenly spaced frames\<close>

lemma bit_length_0 [simp]: "bit_length 0 = 0"
  by (simp add: bit_length.simps)

lemma bit_length_pos: "0 < n \<Longrightarrow> bit_length n = Suc (bit_length (n div 2))"
  by (subst bit_length.simps) simp

lemma bit_length_le: "n < 2 ^ k \<Longrightarrow> bit_length n \<le> k"
proof (induction k arbitrary: n)
  case 0
  then show ?case by simp
next
  case (Suc k)
  show ?case
  proof (cases "n = 0")
    case True
    then show ?thesis by simp
  next
    case False
    from Suc.prems have "n div 2 < 2 ^ k" by simp
    then have "bit_length (n div 2) \<le> k" by (rule Suc.IH)
    with False show ?thesis by (simp add: bit_length_pos)
  qed
qed

lemma less_bit_length: "n < 2 ^ bit_length n"
proof (induction n rule: bit_length.induct)
  case (1 n)
  show ?case
  proof (cases "n = 0")
    case True
    then show ?thesis by simp
  next
    case False
    with 1 have "n div 2 < 2 ^ bit_length (n div 2)" by simp
    then have "n < 2 * 2 ^ bit_length (n div 2)" by linarith
    with False show ?thesis by (simp add: bit_length_pos)
  qed
qed

lemma bit_length_mult: "bit_length (a * b) \<le> bit_length a + bit_length b"
proof -
  have "a * b < 2 ^ bit_length a * 2 ^ bit_length b"
  proof (cases "a = 0 \<or> b = 0")
    case True
    then show ?thesis by auto
  next
    case False
    then show ?thesis
      using less_bit_length [of a] less_bit_length [of b]
      by (intro mult_strict_mono) simp_all
  qed
  then have "a * b < 2 ^ (bit_length a + bit_length b)"
    by (simp add: power_add)
  then show ?thesis by (rule bit_length_le)
qed

lemma round_half_even_exact: "0 < den \<Longrightarrow> round_half_even (m * den) den = m"
  by (simp add: round_half_even_def)

lemma double_of_nat_exact: "n < 2 ^ 53 \<Longrightarrow> double_of_nat n = n"
  using bit_length_le [of n 53] round_half_even_exact [of 1 n]
  by (simp add: double_of_nat_def)

lemma ceil_div_exact:
  assumes "0 < (p::nat)"
  shows "(l * p + p - 1) div p = l"
proof -
  from assms have "l * p + p - 1 = (p - 1) + l * p" by simp
  also have "\<dots> div p = (p - 1) div p + l"
    using assms by (simp only: div_mult_self1 [OF less_imp_neq [OF assms, symmetric]])
  finally show ?thesis using assms by simp
qed

lemma double_ceil_div_exact:
  assumes "0 < q" and "l < 2 ^ 53"
  shows "double_ceil (double_div (l * q) q) = l"
proof -
  define e0 where "e0 = int (bit_length (l * q)) - int (bit_length q) - 53"
  define e where "e = (if q * 2 ^ nat e0 * 2 ^ 53 \<le> l * q * 2 ^ nat (- e0) then e0 + 1 else e0)"
  have "bit_length (l * q) \<le> 53 + bit_length q"
    using bit_length_mult [of l q] bit_length_le [OF assms(2)] by simp
  then have e0: "e0 \<le> 0" by (simp add: e0_def)
  have "e \<le> 0"
  proof (cases "e0 = 0")
    case True
    with assms have "\<not> q * 2 ^ nat e0 * 2 ^ 53 \<le> l * q * 2 ^ nat (- e0)"
      by simp
    with True show ?thesis by (simp add: e_def)
  next
    case False
    with e0 show ?thesis by (simp add: e_def)
  qed
  then have n: "nat e = 0" by simp
  have "round_half_even (l * q * 2 ^ nat (- e)) (q * 2 ^ nat e) = l * 2 ^ nat (- e)"
    using round_half_even_exact [OF assms(1), of "l * 2 ^ nat (- e)"]
    by (simp add: n mult_ac)
  moreover have "double_div (l * q) q =
      (round_half_even (l * q * 2 ^ nat (- e)) (q * 2 ^ nat e), e)"
    by (simp only: double_div_def Let_def e_def e0_def)
  ultimately have "double_div (l * q) q = (l * 2 ^ nat (- e), e)"
    by (simp only:)
  moreover have "double_ceil (l * 2 ^ nat (- e), e) = l"
  proof (cases "e = 0")
    case True
    then show ?thesis by simp
  next
    case False
    have "(l * 2 ^ nat (- e) + 2 ^ nat (- e) - 1) div 2 ^ nat (- e) = l"
      by (rule ceil_div_exact) simp
    with False \<open>e \<le> 0\<close> show ?thesis by simp
  qed
  ultimately show ?thesis by simp
qed

lemma arange_step_exact:
  assumes "0 < q" and "l * q < 2 ^ 53"
  shows "arange_step (l * q) q = Inr (map (\<lambda>i. int (i * q)) [0..<l])"
proof -
  from assms(1) have "l \<le> l * q" by simp
  then have l: "l < 2 ^ 53" using assms(2) by (rule le_less_trans)
  have len: "double_ceil (double_div (double_of_nat (l * q)) q) = l"
    using assms l by (simp add: double_of_nat_exact double_ceil_div_exact)
  have "(if i = 0 then 0 else if i = 1 then int q
         else int (double_of_nat (double_of_nat i * q))) = int (i * q)"
    if "i < l" for i
  proof -
    from that l have i: "i < 2 ^ 53" by simp
    from that have "i * q \<le> l * q" by simp
    then have "i * q < 2 ^ 53" using assms(2) by (rule le_less_trans)
    with i show ?thesis by (simp add: double_of_nat_exact)
  qed
  then have "map (\<lambda>i. if i = 0 then 0 else if i = 1 then int q
                       else int (double_of_nat (double_of_nat i * q))) [0..<l] =
             map (\<lambda>i. int (i * q)) [0..<l]"
    by (intro map_cong) simp_all
  with assms(1) len show ?thesis
    by (simp add: arange_step_def)
qed

text \<open>
  C7, as the code has it. The step of the \<^verbatim>\<open>evenly\<close> policy is a \<^verbatim>\<open>float\<close>, exact below
  \<open>2\<^sup>5\<^sup>3\<close>. For a tracklet of \<open>num_imgs \<ge> 1\<close> frames and a target length \<open>seq_len \<ge> 1\<close>, with
  \<open>num_imgs < 2\<^sup>5\<^sup>3\<close> when \<open>num_imgs \<ge> seq_len\<close>, the policy returns a list of exactly
  \<open>seq_len\<close> indices: when \<open>num_imgs \<ge> seq_len\<close>, the indices \<open>0, s, 2 s, \<dots>\<close> with
  \<open>s = (num_imgs - num_imgs mod seq_len) / seq_len\<close>; otherwise \<open>0, \<dots>, num_imgs - 1\<close>
  followed by \<open>seq_len - num_imgs\<close> copies of \<open>num_imgs - 1\<close>.
\<close>

theorem evenly_indices:
  assumes "1 \<le> num_imgs" and "1 \<le> seq_len"
    and "seq_len \<le> num_imgs \<longrightarrow> num_imgs < 2 ^ 53"
  shows "\<exists>indices.
           resolve_indices ''evenly'' num_imgs seq_len draw = Inr indices \<and>
           length indices = seq_len \<and>
           indices =
             (if seq_len \<le> num_imgs
              then map (\<lambda>i. int (i * ((num_imgs - num_imgs mod seq_len) div seq_len))) [0..<seq_len]
              else map int [0..<num_imgs] @ replicate (seq_len - num_imgs) (int num_imgs - 1))"
proof (cases "seq_len \<le> num_imgs")
  case True
  define q where "q = num_imgs div seq_len"
  from True assms have q: "0 < q"
    by (simp add: q_def div_greater_zero_iff)
  have n: "num_imgs - num_imgs mod seq_len = seq_len * q"
    by (simp add: q_def minus_mod_eq_mult_div)
  with assms have s: "(num_imgs - num_imgs mod seq_len) div seq_len = q"
    by simp
  have "num_imgs - num_imgs mod seq_len \<le> num_imgs" by simp
  with n True assms(3) have b: "seq_len * q < 2 ^ 53" by simp
  from assms(2) have "q \<le> seq_len * q" by simp
  then have "q < 2 ^ 53" using b by (rule le_less_trans)
  then have d: "double_of_nat q = q" by (rule double_of_nat_exact)
  have "arange_step (seq_len * q) q = Inr (map (\<lambda>i. int (i * q)) [0..<seq_len])"
    using q b by (rule arange_step_exact)
  with True assms show ?thesis
    by (simp add: resolve_indices_def Let_def n s d)
next
  case False
  with assms show ?thesis
    by (simp add: resolve_indices_def Let_def)
qed

text \<open>
  The examples of the specification: 10 frames at length 3 give \<open>[0, 3, 6]\<close>, 2 frames at
  length 5 give \<open>[0, 1, 1, 1, 1]\<close>.
\<close>

theorem evenly_indices_witness:
  "resolve_indices ''evenly'' 10 3 [] = Inr [0, 3, 6] \<and>
   resolve_indices ''evenly'' 2 5 [] = Inr [0, 1, 1, 1, 1] \<and>
   (\<exists>indices. resolve_indices ''evenly'' 10 3 [] = Inr indices \<and> length indices = 3) \<and>
   (\<exists>indices. resolve_indices ''evenly'' 2 5 [] = Inr indices \<and> length indices = 5)"
proof -
  have a: "(1::nat) \<le> 10" "(1::nat) \<le> 3" "(3::nat) \<le> 10 \<longrightarrow> (10::nat) < 2 ^ 53"
    "(1::nat) \<le> 2" "(1::nat) \<le> 5" "(5::nat) \<le> 2 \<longrightarrow> (2::nat) < 2 ^ 53"
    by simp_all
  from evenly_indices [OF a(1,2,3), of "[]"]
  have e1: "resolve_indices ''evenly'' 10 3 [] = Inr [0, 3, 6]"
    by (simp add: upt_conv_Cons)
  from evenly_indices [OF a(4,5,6), of "[]"]
  have e2: "resolve_indices ''evenly'' 2 5 [] = Inr [0, 1, 1, 1, 1]"
    by (simp add: upt_conv_Cons numeral_eq_Suc)
  from e1 e2 show ?thesis by simp
qed

text \<open>
  Beyond \<open>2\<^sup>5\<^sup>3\<close> the step is rounded. For \<open>3 (2\<^sup>5\<^sup>3 + 1)\<close> frames at length 3 the step
  \<open>2\<^sup>5\<^sup>3 + 1\<close> becomes \<open>2\<^sup>5\<^sup>3\<close>, \<^verbatim>\<open>np.arange\<close> returns four elements, and the \<^verbatim>\<open>assert\<close>
  fails.
\<close>

theorem evenly_indices_rounding:
  "arange_step 27021597764222979 (double_of_nat (27021597764222979 div 3)) =
     Inr [0, 9007199254740992, 18014398509481984, 27021597764222976] \<and>
   resolve_indices ''evenly'' 27021597764222979 3 [] = Inl AssertionError"
  by (simp add: resolve_indices_def arange_step_def double_of_nat_def double_div_def
      round_half_even_def bit_length_pos Let_def upt_conv_Cons)

section \<open>What addition produces\<close>

lemma fst_add_record:
  "fst (add_record self r) =
     set_ids r (rec_obj_id r + int (count_at (num_train_pids self) (rec_dataset_id r)))
               (rec_cam_id r + int (count_at (num_train_cams self) (rec_dataset_id r)))"
  by (cases r) (simp_all add: add_record_def count_at_def Let_def)

lemma snd_add_record:
  "snd (add_record self r) = (if is_dict r then fst (add_record self r) else r)"
  by (cases r) (simp_all add: add_record_def Let_def)

lemma is_dict_snd_add_record [simp]: "is_dict (snd (add_record self r)) = is_dict r"
  by (cases r) (simp_all add: add_record_def Let_def)

text \<open>
  The loop, when no dict object is held at two positions of \<^verbatim>\<open>other.train\<close>: every object
  that \<^verbatim>\<open>other.train\<close> holds is left as one iteration leaves it, and \<^verbatim>\<open>updated_train\<close> gains
  one entry for each position.
\<close>

lemma add_loop_spec:
  assumes "\<forall>p\<in>set ps. p < length objs"
    and "distinct (filter (\<lambda>p. is_dict (objs ! p)) ps)"
  shows "add_loop self ps objs upd =
           (map (\<lambda>i. if i \<in> set ps then snd (add_record self (objs ! i)) else objs ! i)
              [0..<length objs],
            upd @ map (\<lambda>p. if is_dict (objs ! p) then Shared p
                            else Own (fst (add_record self (objs ! p)))) ps)"
  using assms
proof (induction ps arbitrary: objs upd)
  case Nil
  then show ?case by (simp add: map_nth)
next
  case (Cons p ps)
  define objs1 where "objs1 = objs[p := snd (add_record self (objs ! p))]"
  define e where "e = (if is_dict (objs ! p) then Shared p
                       else Own (fst (add_record self (objs ! p))))"
  from Cons.prems(1) have p: "p < length objs" by simp
  have tuple: "objs1 = objs" if "\<not> is_dict (objs ! p)"
    using that by (simp add: objs1_def snd_add_record)
  have step: "add_loop self (p # ps) objs upd = add_loop self ps objs1 (upd @ [e])"
  proof (cases "is_dict (objs ! p)")
    case True
    then show ?thesis by (simp add: split_beta objs1_def e_def)
  next
    case False
    with tuple show ?thesis by (simp add: split_beta e_def)
  qed
  have shape: "is_dict (objs1 ! q) = is_dict (objs ! q)" for q
    using p by (cases "q = p") (simp_all add: objs1_def)
  have fresh: "p \<notin> set ps" if "is_dict (objs ! p)"
    using that Cons.prems(2) by auto
  have same: "objs1 ! q = objs ! q" if "q \<in> set ps" for q
  proof (cases "is_dict (objs ! p)")
    case True
    with fresh that have "q \<noteq> p" by auto
    then show ?thesis by (simp add: objs1_def)
  next
    case False
    with tuple show ?thesis by simp
  qed
  have valid1: "\<forall>q\<in>set ps. q < length objs1"
    using Cons.prems(1) by (simp add: objs1_def)
  have distinct1: "distinct (filter (\<lambda>q. is_dict (objs1 ! q)) ps)"
    using Cons.prems(2) by (simp add: shape split: if_splits)
  have entries:
    "map (\<lambda>q. if is_dict (objs1 ! q) then Shared q
              else Own (fst (add_record self (objs1 ! q)))) ps =
     map (\<lambda>q. if is_dict (objs ! q) then Shared q
              else Own (fst (add_record self (objs ! q)))) ps"
    by (intro map_cong) (simp_all add: same)
  have objects:
    "(if i \<in> set ps then snd (add_record self (objs1 ! i)) else objs1 ! i) =
     (if i \<in> set (p # ps) then snd (add_record self (objs ! i)) else objs ! i)"
    if "i < length objs" for i
  proof (cases "i = p")
    case True
    show ?thesis
    proof (cases "is_dict (objs ! p)")
      case dict: True
      with fresh True p show ?thesis by (simp add: objs1_def)
    next
      case False
      with tuple True show ?thesis by (simp add: snd_add_record)
    qed
  next
    case False
    then show ?thesis by (simp add: same objs1_def)
  qed
  have "map (\<lambda>i. if i \<in> set ps then snd (add_record self (objs1 ! i)) else objs1 ! i)
          [0..<length objs1] =
        map (\<lambda>i. if i \<in> set (p # ps) then snd (add_record self (objs ! i)) else objs ! i)
          [0..<length objs]"
    using objects by (intro map_cong) (simp_all add: objs1_def)
  with Cons.IH [OF valid1 distinct1, of "upd @ [e]"] entries step show ?case
    by (simp add: e_def)
qed

lemma view_after_loop:
  assumes "\<forall>p\<in>set ps. p < length objs"
  shows "map (view (map (\<lambda>i. if i \<in> set ps then snd (add_record self (objs ! i)) else objs ! i)
                      [0..<length objs]))
           (map Own xs @
            map (\<lambda>p. if is_dict (objs ! p) then Shared p
                      else Own (fst (add_record self (objs ! p)))) ps) =
         xs @ map (\<lambda>p. fst (add_record self (objs ! p))) ps"
  using assms by (auto simp: snd_add_record comp_def)

lemma Dataset_add_objects_eq:
  assumes "\<forall>p\<in>set ps. p < length objs"
    and "distinct (filter (\<lambda>p. is_dict (objs ! p)) ps)"
  shows "Dataset_add_objects iter self objs ps =
     (let updated_train = train self @ map (\<lambda>p. fst (add_record self (objs ! p))) ps;
          result =
            (case updated_train of
               [] \<Rightarrow> Inl IndexError
             | first # _ \<Rightarrow>
                 (case rec_first_field first of
                    Str _ \<Rightarrow>
                      ImageDataset_init iter [] updated_train (query self) (gallery self)
                        (has_transform self) (mode self) False False
                  | Seq _ \<Rightarrow>
                      (case kind self of
                         VideoDataset seq_len sample_method \<Rightarrow>
                           VideoDataset_init iter [] updated_train (query self) (gallery self)
                             seq_len sample_method (has_transform self) (mode self) False False
                       | _ \<Rightarrow> Inl AttributeError)))
      in (result,
          map (\<lambda>i. if i \<in> set ps then snd (add_record self (objs ! i)) else objs ! i)
            [0..<length objs]))"
  unfolding Dataset_add_objects_def add_loop_spec [OF assms] split_conv Let_def
    view_after_loop [OF assms(1)]
  by (rule refl)

lemma Dataset_init_plain:
  "Dataset_init iter k junk t q g tf m False False =
     (if m = ''train'' then Inr ((init_attributes k junk t q g tf m False False)\<lparr>data := t\<rparr>)
      else if m = ''query'' then Inr ((init_attributes k junk t q g tf m False False)\<lparr>data := q\<rparr>)
      else if m = ''gallery'' then Inr ((init_attributes k junk t q g tf m False False)\<lparr>data := g\<rparr>)
      else Inl (ValueError (Invalid_mode m)))"
  by (simp add: Dataset_init_def init_attributes_def)

lemma Dataset_init_plain_train:
  "Dataset_init iter k junk t q g tf m False False = Inr result \<Longrightarrow> train result = t"
  by (auto simp: Dataset_init_plain init_attributes_def split: if_splits)

lemma rec_first_field_add_record [simp]:
  "rec_first_field (fst (add_record self r)) = rec_first_field r"
  by (cases r) (simp_all add: fst_add_record)



text \<open>The sum of two datasets in which each position of \<^verbatim>\<open>other.train\<close> has its own object.\<close>

lemma Dataset_add_eq:
  "Dataset_add iter self other =
     (let (updated_train, other_train) =
            (train self @ map (\<lambda>r. fst (add_record self r)) (train other),
             map (\<lambda>r. snd (add_record self r)) (train other));
          result =
            (case updated_train of
               [] \<Rightarrow> Inl IndexError
             | first # _ \<Rightarrow>
                 (case rec_first_field first of
                    Str _ \<Rightarrow>
                      ImageDataset_init iter [] updated_train (query self) (gallery self)
                        (has_transform self) (mode self) False False
                  | Seq _ \<Rightarrow>
                      (case kind self of
                         VideoDataset seq_len sample_method \<Rightarrow>
                           VideoDataset_init iter [] updated_train (query self) (gallery self)
                             seq_len sample_method (has_transform self) (mode self) False False
                       | _ \<Rightarrow> Inl AttributeError)))
      in (result, other\<lparr>train := other_train\<rparr>))"
proof -
  have v: "\<forall>p\<in>set [0..<length (train other)]. p < length (train other)"
    by simp
  have d: "distinct (filter (\<lambda>p. is_dict (train other ! p)) [0..<length (train other)])"
    by simp
  have a: "map (\<lambda>p. fst (add_record self (train other ! p))) [0..<length (train other)] =
           map (\<lambda>r. fst (add_record self r)) (train other)"
    by (rule nth_equalityI) simp_all
  have b: "map (\<lambda>i. if i \<in> set [0..<length (train other)]
                     then snd (add_record self (train other ! i)) else train other ! i)
             [0..<length (train other)] =
           map (\<lambda>r. snd (add_record self r)) (train other)"
    by (rule nth_equalityI) simp_all
  show ?thesis
    unfolding Dataset_add_def Dataset_add_objects_eq [OF v d] a b
    by (simp add: Let_def)
qed

lemma Dataset_add_train:
  assumes "fst (Dataset_add iter self other) = Inr result"
  shows "train result = train self @ map (\<lambda>r. fst (add_record self r)) (train other)"
  using assms
  by (auto simp: Dataset_add_eq ImageDataset_init_def VideoDataset_init_def
      dest: Dataset_init_plain_train split: list.splits media.splits kind.splits sum.splits if_splits)

lemma Dataset_add_other:
  "train (snd (Dataset_add iter self other)) = map (\<lambda>r. snd (add_record self r)) (train other)"
  by (simp add: Dataset_add_eq)

lemma Dataset_add_IndexError:
  "fst (Dataset_add iter self other) = Inl IndexError \<longleftrightarrow> train self = [] \<and> train other = []"
  by (auto simp: Dataset_add_eq ImageDataset_init_def VideoDataset_init_def
      Dataset_init_plain split: list.splits media.splits kind.splits sum.splits if_splits)

lemma dom_get_num_pids: "dom (get_num_pids xs) = rec_dataset_id ` set xs"
  by (auto simp: get_num_pids_ids_of dom_def)

lemma dom_get_num_cams: "dom (get_num_cams xs) = rec_dataset_id ` set xs"
  by (auto simp: get_num_cams_eq dom_def)

lemma combine_all_frame:
  assumes "combine_all iter self = Inr self'"
  shows "query self' = query self" and "gallery self' = gallery self"
    and "num_train_cams self' = num_train_cams self"
    and "num_train_pids self' = get_num_pids (train self')"
  using combine_all_Inr(1) [OF assms] by simp_all

lemma combine_all_dataset_ids:
  assumes "combine_all iter self = Inr self'"
    and "dom (num_train_pids self) = rec_dataset_id ` set (train self)"
  shows "rec_dataset_id ` set (train self') = rec_dataset_id ` set (train self)"
proof -
  from combine_all_Inr(1) [OF assms(1)]
  have tr: "train self' = train self @ map (relabelled iter self)
              (keep (junk_pids self) (query self @ gallery self))"
    by simp
  have "rec_dataset_id (relabelled iter self r) \<in> rec_dataset_id ` set (train self)"
    if "r \<in> set (keep (junk_pids self) (query self @ gallery self))" for r
    using combine_all_Inr(2) [OF assms(1)] that assms(2)
    by (auto simp: relabelled_def)
  with tr show ?thesis by auto
qed

lemma Dataset_init_counts:
  assumes "Dataset_init iter k junk t q g tf m ca vb = Inr self"
  shows "num_train_pids self = get_num_pids (train self)"
    and "dom (num_train_cams self) = dom (num_train_pids self)"
proof -
  let ?self0 = "init_attributes k junk t q g tf m ca vb"
  from assms obtain self1 where
    s1: "(if ca then combine_all iter ?self0 else Inr ?self0) = Inr self1" and
    s: "train self = train self1" "num_train_pids self = num_train_pids self1"
       "num_train_cams self = num_train_cams self1"
    by (auto simp: Dataset_init_def Let_def split: sum.splits if_splits kind.splits)
  have "num_train_pids self1 = get_num_pids (train self1) \<and>
        dom (num_train_cams self1) = dom (num_train_pids self1)"
  proof (cases ca)
    case False
    with s1 have "self1 = ?self0" by simp
    then show ?thesis
      by (simp add: init_attributes_def dom_get_num_pids dom_get_num_cams)
  next
    case True
    with s1 have c: "combine_all iter ?self0 = Inr self1" by simp
    have "dom (num_train_pids ?self0) = rec_dataset_id ` set (train ?self0)"
      by (simp add: init_attributes_def dom_get_num_pids)
    from combine_all_dataset_ids [OF c this] combine_all_frame(3,4) [OF c]
    show ?thesis
      by (simp add: dom_get_num_pids) (simp add: init_attributes_def dom_get_num_cams)
  qed
  with s show "num_train_pids self = get_num_pids (train self)"
    and "dom (num_train_cams self) = dom (num_train_pids self)"
    by simp_all
qed

lemma Dataset_add_returns_iff:
  "(\<exists>result. fst (Dataset_add iter self other) = Inr result) \<longleftrightarrow>
     (\<exists>r rest. train self @ train other = r # rest \<and>
        (mode self = ''train'' \<or> mode self = ''query'' \<or> mode self = ''gallery'') \<and>
        (case rec_first_field r of
           Str p \<Rightarrow> True
         | Seq ps \<Rightarrow> has_transform self \<and>
                    (case kind self of VideoDataset n s \<Rightarrow> True | _ \<Rightarrow> False)))"
proof -
  show ?thesis
  proof (cases "train self")
    case Nil
    show ?thesis
    proof (cases "train other")
      case Nil
      with \<open>train self = []\<close> show ?thesis
        by (simp add: Dataset_add_eq)
    next
      case (Cons r rest)
      with \<open>train self = []\<close> show ?thesis
        by (cases "rec_first_field r"; cases "kind self")
           (auto simp: Dataset_add_eq ImageDataset_init_def VideoDataset_init_def
              Dataset_init_plain init_attributes_def)
    qed
  next
    case (Cons r rest)
    then show ?thesis
      by (cases "rec_first_field r"; cases "kind self")
         (auto simp: Dataset_add_eq ImageDataset_init_def VideoDataset_init_def
            Dataset_init_plain init_attributes_def)
  qed
qed

section \<open>Adding two datasets: the offsets\<close>







section \<open>Adding two datasets: an empty train split\<close>

text \<open>
  C8, as the code has it. \<^verbatim>\<open>__add__\<close> does not look at \<^verbatim>\<open>other.train\<close> for emptiness; it
  reads \<^verbatim>\<open>updated_train[0]\<close>. With an empty \<^verbatim>\<open>other.train\<close> it raises \<^verbatim>\<open>IndexError\<close> exactly
  when \<^verbatim>\<open>self.train\<close> is empty too. Otherwise the sum is decided by \<open>self\<close> alone: it returns
  exactly when the mode of \<open>self\<close> is one of the three and the first field of the first
  record of \<^verbatim>\<open>self.train\<close> is a string, or \<open>self\<close> is a \<^verbatim>\<open>VideoDataset\<close> with a transform; and
  the train split of the result is \<^verbatim>\<open>self.train\<close>.
\<close>

theorem add_empty_other:
  assumes "train other = []"
  shows "(fst (Dataset_add iter self other) = Inl IndexError \<longleftrightarrow> train self = []) \<and>
         (\<forall>result. fst (Dataset_add iter self other) = Inr result \<longrightarrow>
            train result = train self) \<and>
         ((\<exists>result. fst (Dataset_add iter self other) = Inr result) \<longleftrightarrow>
            (\<exists>r rest. train self = r # rest \<and>
               (mode self = ''train'' \<or> mode self = ''query'' \<or> mode self = ''gallery'') \<and>
               (case rec_first_field r of
                  Str p \<Rightarrow> True
                | Seq ps \<Rightarrow> has_transform self \<and>
                           (case kind self of VideoDataset n s \<Rightarrow> True | _ \<Rightarrow> False))))"
  using Dataset_add_IndexError [of iter self other] Dataset_add_returns_iff [of iter self other]
    assms
  by (auto dest!: Dataset_add_train)

theorem add_empty_other_witness:
  "fst (Dataset_add sorted_iteration
          (init_attributes ImageDataset [] [] [] [] False ''train'' False False)
          (init_attributes ImageDataset [] [] [] [] False ''train'' False False)) =
     Inl IndexError \<and>
   (\<exists>result.
      fst (Dataset_add sorted_iteration
             (init_attributes ImageDataset [] [TupleRec (Str ''a'') 0 0 []] [] [] False
                ''train'' False False)
             (init_attributes ImageDataset [] [] [] [] False ''train'' False False)) =
        Inr result \<and>
      train result = [TupleRec (Str ''a'') 0 0 []])"
proof -
  let ?e = "init_attributes ImageDataset [] [] [] [] False ''train'' False False"
  let ?a = "init_attributes ImageDataset [] [TupleRec (Str ''a'') 0 0 []] [] [] False
              ''train'' False False"
  have e: "train ?e = []" by (simp add: init_attributes_def)
  from add_empty_other [OF e, of sorted_iteration ?e]
  have 1: "fst (Dataset_add sorted_iteration ?e ?e) = Inl IndexError"
    by (simp add: init_attributes_def)
  from add_empty_other [OF e, of sorted_iteration ?a]
  have "\<exists>result. fst (Dataset_add sorted_iteration ?a ?e) = Inr result \<and>
          train result = train ?a"
    by (auto simp: init_attributes_def)
  with 1 show ?thesis by (simp add: init_attributes_def)
qed

text \<open>
  A sum with an empty \<^verbatim>\<open>other.train\<close> that returns a dataset: its train split is that of
  \<open>self\<close>.
\<close>

theorem add_empty_other_returns:
  "Dataset_init sorted_iteration ImageDataset [] [TupleRec (Str ''a'') 0 0 []] [] [] False
     ''train'' False False =
     Inr ((init_attributes ImageDataset [] [TupleRec (Str ''a'') 0 0 []] [] [] False
             ''train'' False False)\<lparr>data := [TupleRec (Str ''a'') 0 0 []]\<rparr>) \<and>
   Dataset_init sorted_iteration ImageDataset [] [] [] [] False ''query'' False False =
     Inr (init_attributes ImageDataset [] [] [] [] False ''query'' False False) \<and>
   map_sum id train
     (fst (Dataset_add sorted_iteration
             ((init_attributes ImageDataset [] [TupleRec (Str ''a'') 0 0 []] [] [] False
                 ''train'' False False)\<lparr>data := [TupleRec (Str ''a'') 0 0 []]\<rparr>)
             (init_attributes ImageDataset [] [] [] [] False ''query'' False False))) =
     Inr [TupleRec (Str ''a'') 0 0 []]"
  by (simp add: Dataset_add_eq init_attributes_def ImageDataset_init_def Dataset_init_def)

section \<open>Adding two datasets: what happens to the operands\<close>

lemma combine_all_keeps_query_gallery:
  "combine_all iter self = Inr self' \<Longrightarrow> query self' = query self \<and> gallery self' = gallery self"
  by (simp add: combine_all_frame)

lemma Dataset_add_keeps_tuples:
  assumes "\<forall>r\<in>set (train other). \<not> is_dict r"
  shows "train (snd (Dataset_add iter self other)) = train other"
proof -
  from assms have "map (\<lambda>r. snd (add_record self r)) (train other) = train other"
    by (induction "train other") (auto simp: snd_add_record map_idI)
  then show ?thesis
    by (simp add: Dataset_add_eq)
qed

lemma Dataset_add_changes_dicts:
  "train (snd (Dataset_add iter self other)) =
     map (\<lambda>r. if is_dict r
               then set_ids r
                      (rec_obj_id r + int (count_at (num_train_pids self) (rec_dataset_id r)))
                      (rec_cam_id r + int (count_at (num_train_cams self) (rec_dataset_id r)))
               else r)
       (train other)"
  by (simp add: Dataset_add_other snd_add_record fst_add_record)

text \<open>
  C4 at a dict record. \<^verbatim>\<open>a\<close> and \<^verbatim>\<open>b\<close> are built by the constructor; \<^verbatim>\<open>a.train\<close> has one
  identity and one camera for dataset id 0, and \<^verbatim>\<open>b.train\<close> is one dict with identity 0 and
  camera 0. After \<^verbatim>\<open>a + b\<close> the record of \<^verbatim>\<open>b.train\<close> has identity 1 and camera 1: the loop
  assigns into the record of \<^verbatim>\<open>other.train\<close> and appends that same record. The same happens
  when the sum raises: an \<^verbatim>\<open>ImageDataset\<close> whose first record is a tracklet has no
  \<^verbatim>\<open>seq_len\<close>, and the records of \<^verbatim>\<open>other.train\<close> are changed before \<^verbatim>\<open>AttributeError\<close>.
\<close>

theorem add_changes_other_train:
  "Dataset_init sorted_iteration ImageDataset [] [DictRec (Str ''a'') 0 0 0 []] [] [] False
     ''train'' False False =
     Inr ((init_attributes ImageDataset [] [DictRec (Str ''a'') 0 0 0 []] [] [] False
             ''train'' False False)\<lparr>data := [DictRec (Str ''a'') 0 0 0 []]\<rparr>) \<and>
   Dataset_init sorted_iteration ImageDataset [] [DictRec (Str ''b'') 0 0 0 []] [] [] False
     ''train'' False False =
     Inr ((init_attributes ImageDataset [] [DictRec (Str ''b'') 0 0 0 []] [] [] False
             ''train'' False False)\<lparr>data := [DictRec (Str ''b'') 0 0 0 []]\<rparr>) \<and>
   map_sum id train
     (fst (Dataset_add sorted_iteration
        ((init_attributes ImageDataset [] [DictRec (Str ''a'') 0 0 0 []] [] [] False
             ''train'' False False)\<lparr>data := [DictRec (Str ''a'') 0 0 0 []]\<rparr>)
        ((init_attributes ImageDataset [] [DictRec (Str ''b'') 0 0 0 []] [] [] False
             ''train'' False False)\<lparr>data := [DictRec (Str ''b'') 0 0 0 []]\<rparr>))) =
     Inr [DictRec (Str ''a'') 0 0 0 [], DictRec (Str ''b'') 1 1 0 []] \<and>
   train (snd (Dataset_add sorted_iteration
        ((init_attributes ImageDataset [] [DictRec (Str ''a'') 0 0 0 []] [] [] False
             ''train'' False False)\<lparr>data := [DictRec (Str ''a'') 0 0 0 []]\<rparr>)
        ((init_attributes ImageDataset [] [DictRec (Str ''b'') 0 0 0 []] [] [] False
             ''train'' False False)\<lparr>data := [DictRec (Str ''b'') 0 0 0 []]\<rparr>))) =
     [DictRec (Str ''b'') 1 1 0 []] \<and>
   fst (Dataset_add sorted_iteration
        ((init_attributes ImageDataset [] [DictRec (Seq [''f1'', ''f2'']) 0 0 0 []] [] [] False
             ''train'' False False)\<lparr>data := [DictRec (Seq [''f1'', ''f2'']) 0 0 0 []]\<rparr>)
        ((init_attributes ImageDataset [] [DictRec (Str ''b'') 0 0 0 []] [] [] False
             ''train'' False False)\<lparr>data := [DictRec (Str ''b'') 0 0 0 []]\<rparr>)) =
     Inl AttributeError \<and>
   train (snd (Dataset_add sorted_iteration
        ((init_attributes ImageDataset [] [DictRec (Seq [''f1'', ''f2'']) 0 0 0 []] [] [] False
             ''train'' False False)\<lparr>data := [DictRec (Seq [''f1'', ''f2'']) 0 0 0 []]\<rparr>)
        ((init_attributes ImageDataset [] [DictRec (Str ''b'') 0 0 0 []] [] [] False
             ''train'' False False)\<lparr>data := [DictRec (Str ''b'') 0 0 0 []]\<rparr>))) =
     [DictRec (Str ''b'') 1 1 0 []]"
  by (simp add: Dataset_add_eq init_attributes_def ImageDataset_init_def Dataset_init_def
      add_record_def get_num_pids_def get_num_cams_def parse_data_def dd_add_def)

section \<open>Unrecognised names\<close>

lemma Dataset_init_invalid_mode:
  assumes "mode0 \<noteq> ''train''" and "mode0 \<noteq> ''query''" and "mode0 \<noteq> ''gallery''"
  shows "Dataset_init iter k junk t q g tf mode0 ca vb =
           (if ca
            then (case combine_all iter (init_attributes k junk t q g tf mode0 ca vb) of
                    Inl e \<Rightarrow> Inl e
                  | Inr self \<Rightarrow> Inl (ValueError (Invalid_mode mode0)))
            else Inl (ValueError (Invalid_mode mode0)))"
  using assms by (simp add: Dataset_init_def Let_def split: sum.splits)

lemma relabel_loop_errors:
  "relabel_loop whole rest junk m n out = Inl e \<Longrightarrow> e = KeyError \<or> e = TypeError \<or> e = IndexError"
proof (induction rest arbitrary: out)
  case Nil
  then show ?case by simp
next
  case (Cons r rest)
  then show ?case
    by (cases r)
       (auto simp: Let_def split: if_splits option.splits list.splits)
qed

lemma combine_all_errors:
  "combine_all iter self = Inl e \<Longrightarrow> e = KeyError \<or> e = TypeError \<or> e = IndexError"
  by (auto simp: combine_all_def Let_def relabel_def split: sum.splits dest: relabel_loop_errors)

text \<open>
  C9, as the code has it. The index selection raises the \<^verbatim>\<open>ValueError\<close> for an unknown sample
  method exactly for the names other than \<^verbatim>\<open>'random'\<close>, \<^verbatim>\<open>'evenly'\<close> and \<^verbatim>\<open>'all'\<close>, and then
  returns no indices. The constructor checks the mode after \<^verbatim>\<open>combine_all\<close>: with a mode
  other than \<^verbatim>\<open>'train'\<close>, \<^verbatim>\<open>'query'\<close> and \<^verbatim>\<open>'gallery'\<close> it always raises, and what it raises is
  the \<^verbatim>\<open>ValueError\<close> for an invalid mode unless \<^verbatim>\<open>combineall\<close> is set and \<^verbatim>\<open>combine_all\<close> raises
  first, in which case it is the error of \<^verbatim>\<open>combine_all\<close>. With one of the three modes the
  \<^verbatim>\<open>ValueError\<close> for an invalid mode is never raised.
\<close>

theorem unrecognised_names:
  "(sample_method \<noteq> ''random'' \<and> sample_method \<noteq> ''evenly'' \<and> sample_method \<noteq> ''all'' \<longrightarrow>
      resolve_indices sample_method num_imgs seq_len draw =
        Inl (ValueError (Unknown_sample_method sample_method))) \<and>
   (sample_method = ''random'' \<or> sample_method = ''evenly'' \<or> sample_method = ''all'' \<longrightarrow>
      (\<forall>name. resolve_indices sample_method num_imgs seq_len draw \<noteq>
                Inl (ValueError (Unknown_sample_method name)))) \<and>
   (mode0 \<noteq> ''train'' \<and> mode0 \<noteq> ''query'' \<and> mode0 \<noteq> ''gallery'' \<longrightarrow>
      (\<exists>e. Dataset_init iter k junk t q g tf mode0 ca vb = Inl e) \<and>
      (\<not> ca \<or> (\<exists>self. combine_all iter (init_attributes k junk t q g tf mode0 ca vb) = Inr self) \<longrightarrow>
         Dataset_init iter k junk t q g tf mode0 ca vb = Inl (ValueError (Invalid_mode mode0))) \<and>
      (\<forall>e. ca \<and> combine_all iter (init_attributes k junk t q g tf mode0 ca vb) = Inl e \<longrightarrow>
         Dataset_init iter k junk t q g tf mode0 ca vb = Inl e)) \<and>
   (mode0 = ''train'' \<or> mode0 = ''query'' \<or> mode0 = ''gallery'' \<longrightarrow>
      (\<forall>name. Dataset_init iter k junk t q g tf mode0 ca vb \<noteq>
                Inl (ValueError (Invalid_mode name))))"
proof (intro conjI impI allI)
  assume "sample_method \<noteq> ''random'' \<and> sample_method \<noteq> ''evenly'' \<and> sample_method \<noteq> ''all''"
  then show "resolve_indices sample_method num_imgs seq_len draw =
        Inl (ValueError (Unknown_sample_method sample_method))"
    by (simp add: resolve_indices_def)
next
  fix name
  assume "sample_method = ''random'' \<or> sample_method = ''evenly'' \<or> sample_method = ''all''"
  then show "resolve_indices sample_method num_imgs seq_len draw \<noteq>
                Inl (ValueError (Unknown_sample_method name))"
    by (auto simp: resolve_indices_def arange_step_def Let_def split: if_splits)
next
  assume m: "mode0 \<noteq> ''train'' \<and> mode0 \<noteq> ''query'' \<and> mode0 \<noteq> ''gallery''"
  then show "\<exists>e. Dataset_init iter k junk t q g tf mode0 ca vb = Inl e"
    by (simp add: Dataset_init_invalid_mode split: sum.splits)
  {
    assume "\<not> ca \<or> (\<exists>self. combine_all iter (init_attributes k junk t q g tf mode0 ca vb) = Inr self)"
    with m show "Dataset_init iter k junk t q g tf mode0 ca vb = Inl (ValueError (Invalid_mode mode0))"
      by (auto simp: Dataset_init_invalid_mode)
  }
  {
    fix e
    assume "ca \<and> combine_all iter (init_attributes k junk t q g tf mode0 ca vb) = Inl e"
    with m show "Dataset_init iter k junk t q g tf mode0 ca vb = Inl e"
      by (auto simp: Dataset_init_invalid_mode)
  }
next
  fix name
  assume m: "mode0 = ''train'' \<or> mode0 = ''query'' \<or> mode0 = ''gallery''"
  show "Dataset_init iter k junk t q g tf mode0 ca vb \<noteq> Inl (ValueError (Invalid_mode name))"
  proof
    assume a: "Dataset_init iter k junk t q g tf mode0 ca vb = Inl (ValueError (Invalid_mode name))"
    show False
    proof (cases "if ca then combine_all iter (init_attributes k junk t q g tf mode0 ca vb)
                  else Inr (init_attributes k junk t q g tf mode0 ca vb)")
      case (Inl e)
      with a have "e = ValueError (Invalid_mode name)"
        by (simp add: Dataset_init_def Let_def)
      moreover from Inl have "e = KeyError \<or> e = TypeError \<or> e = IndexError"
        by (auto split: if_splits dest: combine_all_errors)
      ultimately show False by auto
    next
      case (Inr self)
      with a m show False
        by (auto simp: Dataset_init_def Let_def split: if_splits kind.splits)
    qed
  qed
qed

theorem unrecognised_names_witness:
  "resolve_indices ''unknown'' 7 3 [] = Inl (ValueError (Unknown_sample_method ''unknown'')) \<and>
   resolve_indices ''all'' 7 3 [] = Inr [0, 1, 2, 3, 4, 5, 6] \<and>
   Dataset_init sorted_iteration ImageDataset [] [TupleRec (Str ''a'') 0 0 []] [] [] False
     ''test'' False True = Inl (ValueError (Invalid_mode ''test'')) \<and>
   Dataset_init sorted_iteration ImageDataset [] [TupleRec (Str ''a'') 0 0 []]
     [TupleRec (Str ''b'') 1 0 []] [] False ''test'' True True =
     Inl (ValueError (Invalid_mode ''test''))"
proof -
  have ev: "resolve_indices ''all'' 7 3 [] = Inr [0, 1, 2, 3, 4, 5, 6]"
    by code_simp
  have c: "\<exists>self. combine_all sorted_iteration
             (init_attributes ImageDataset [] [TupleRec (Str ''a'') 0 0 []]
                [TupleRec (Str ''b'') 1 0 []] [] False ''test'' True True) = Inr self"
    by (simp add: combine_all_def init_attributes_def get_obj_ids_def relabel_def
      dd_add_def enumerate_labels_def sorted_iteration_def get_num_pids_def parse_data_def)
  from
    unrecognised_names [of "''unknown''" 7 3 "[]" "''test''" sorted_iteration ImageDataset "[]"
      "[TupleRec (Str ''a'') 0 0 []]" "[]" "[]" False False True]
    unrecognised_names [of "''all''" 7 3 "[]" "''test''" sorted_iteration ImageDataset "[]"
      "[TupleRec (Str ''a'') 0 0 []]" "[TupleRec (Str ''b'') 1 0 []]" "[]" False True True]
    c ev
  show ?thesis by simp
qed

text \<open>
  A construction with an unrecognised mode that raises \<^verbatim>\<open>KeyError\<close>: \<^verbatim>\<open>combineall\<close> is set,
  the train split is empty, and \<^verbatim>\<open>_relabel\<close> fails on the query record before the mode is
  looked at.
\<close>

theorem invalid_mode_after_combine_all:
  "Dataset_init sorted_iteration ImageDataset [] [] [TupleRec (Str ''q'') 1 0 []] [] False
     ''test'' True True = Inl KeyError"
  by (simp add: Dataset_init_def combine_all_def init_attributes_def get_obj_ids_def relabel_def
      dd_add_def enumerate_labels_def sorted_iteration_def get_num_pids_def parse_data_def)

section \<open>Tuple records and the dataset id\<close>

lemma get_data_counts_loop_eq:
  "get_data_counts_loop xs counts d =
     (if d \<in> rec_dataset_id ` set xs \<or> d \<in> dom counts
      then Some (\<lambda>p.
        let n = count_list (map rec_obj_id (filter (\<lambda>r. rec_dataset_id r = d) xs)) p;
            base = (case counts d of None \<Rightarrow> None | Some c \<Rightarrow> c p)
        in if n = 0 then base else Some ((case base of None \<Rightarrow> 0 | Some b \<Rightarrow> b) + n))
      else None)"
proof (induction xs arbitrary: counts)
  case Nil
  then show ?case by (auto simp: fun_eq_iff split: option.splits)
next
  case (Cons r xs)
  show ?case
    unfolding get_data_counts_loop.simps Let_def Cons.IH
    by (auto simp: fun_eq_iff Let_def split: option.splits)
qed

lemma get_data_counts_eq:
  "get_data_counts xs d =
     (if d \<in> rec_dataset_id ` set xs
      then Some (\<lambda>p.
        if p \<in> ids_of xs d
        then Some (count_list (map rec_obj_id (filter (\<lambda>r. rec_dataset_id r = d) xs)) p)
        else None)
      else None)"
  by (auto simp: get_data_counts_def get_data_counts_loop_eq Let_def fun_eq_iff ids_of_def
      count_list_0_iff)

lemma tuples_dataset_id:
  "\<forall>r\<in>set xs. \<not> is_dict r \<Longrightarrow> r \<in> set xs \<Longrightarrow> rec_dataset_id r = 0"
  by (cases r) auto

lemma tuples_filter_zero:
  assumes "\<forall>r\<in>set xs. \<not> is_dict r"
  shows "filter (\<lambda>r. rec_dataset_id r = 0) xs = xs"
  using assms tuples_dataset_id [OF assms] by (simp add: filter_id_conv)

lemma tuples_image:
  assumes "\<forall>r\<in>set xs. \<not> is_dict r"
  shows "rec_dataset_id ` set xs = (if xs = [] then {} else {0})"
  using tuples_dataset_id [OF assms] by (cases xs) auto

text \<open>
  C10. For a split of tuple records, whatever the tuples hold from position 3 on, every
  dictionary of the bookkeeping has the single key 0, and all the records are counted
  under it: \<^verbatim>\<open>parse_data\<close> gives the number of distinct identity and camera ids of the whole
  split, \<^verbatim>\<open>get_data_counts\<close> the number of records of each identity, \<^verbatim>\<open>_get_obj_ids\<close> the set of
  identities that are not junk; and \<^verbatim>\<open>__add__\<close> shifts each tuple record by the entries of
  \<^verbatim>\<open>self.num_train_pids\<close> and \<^verbatim>\<open>self.num_train_cams\<close> at the key 0.
\<close>

theorem tuples_keyed_under_zero:
  assumes "\<forall>r\<in>set xs. \<not> is_dict r"
  shows "parse_data xs =
           (if xs = [] then (Map.empty, Map.empty)
            else ([0 \<mapsto> card (set (map rec_obj_id xs))],
                  [0 \<mapsto> card (set (map rec_cam_id xs))])) \<and>
         get_data_counts xs =
           (if xs = [] then Map.empty
            else [0 \<mapsto> (\<lambda>p. if p \<in> set (map rec_obj_id xs)
                              then Some (count_list (map rec_obj_id xs) p) else None)]) \<and>
         get_obj_ids xs junk None =
           (if keep junk xs = [] then Map.empty
            else [0 \<mapsto> set (map rec_obj_id (keep junk xs))]) \<and>
         (\<forall>r\<in>set xs.
            fst (add_record self r) =
              set_ids r (rec_obj_id r + int (count_at (num_train_pids self) 0))
                        (rec_cam_id r + int (count_at (num_train_cams self) 0)))"
proof (intro conjI)
  note f = tuples_filter_zero [OF assms] and i = tuples_image [OF assms]
  have "fst (parse_data xs) = (if xs = [] then Map.empty else [0 \<mapsto> card (set (map rec_obj_id xs))])"
    using get_num_pids_ids_of [of xs] i f
    by (auto simp: fun_eq_iff get_num_pids_def ids_of_def)
  moreover have "snd (parse_data xs) = (if xs = [] then Map.empty else [0 \<mapsto> card (set (map rec_cam_id xs))])"
    using get_num_cams_eq [of xs] i f
    by (auto simp: fun_eq_iff get_num_cams_def set_filter [symmetric] simp del: set_filter)
  ultimately show "parse_data xs =
           (if xs = [] then (Map.empty, Map.empty)
            else ([0 \<mapsto> card (set (map rec_obj_id xs))],
                  [0 \<mapsto> card (set (map rec_cam_id xs))]))"
    by (simp add: prod_eq_iff)
  show "get_data_counts xs =
           (if xs = [] then Map.empty
            else [0 \<mapsto> (\<lambda>p. if p \<in> set (map rec_obj_id xs)
                              then Some (count_list (map rec_obj_id xs) p) else None)])"
    using i f by (auto simp: fun_eq_iff get_data_counts_eq ids_of_def)
  have k: "\<forall>r\<in>set (keep junk xs). \<not> is_dict r"
    using assms by (simp add: keep_def)
  show "get_obj_ids xs junk None =
           (if keep junk xs = [] then Map.empty
            else [0 \<mapsto> set (map rec_obj_id (keep junk xs))])"
    using tuples_image [OF k] tuples_filter_zero [OF k]
    by (auto simp: fun_eq_iff get_obj_ids_None_eq ids_of_def)
  show "\<forall>r\<in>set xs.
            fst (add_record self r) =
              set_ids r (rec_obj_id r + int (count_at (num_train_pids self) 0))
                        (rec_cam_id r + int (count_at (num_train_cams self) 0))"
    using tuples_dataset_id [OF assms] by (simp add: fst_add_record)
qed

text \<open>
  Three tuples as the loaders of \<^verbatim>\<open>classification.py\<close> build them, with the dataset ids 3, 5
  and 5 at position 3: the counts are at the key 0, and nothing is at the keys 3 and 5. Added
  to a dataset with two identities for dataset id 0 and one for dataset id 5, the second
  tuple gets the identity id \<open>1 + 2\<close>.
\<close>

theorem tuples_keyed_under_zero_witness:
  "fst (parse_data [TupleRec (Str ''a'') 0 0 [PyInt 3, PyStr [], PyInt (- 1), PyInt (- 1)],
      TupleRec (Str ''b'') 1 0 [PyInt 5, PyStr [], PyInt (- 1), PyInt (- 1)],
      TupleRec (Str ''c'') 1 0 [PyInt 5, PyStr [], PyInt (- 1), PyInt (- 1)]]) 0 = Some 2 \<and>
   fst (parse_data [TupleRec (Str ''a'') 0 0 [PyInt 3, PyStr [], PyInt (- 1), PyInt (- 1)],
      TupleRec (Str ''b'') 1 0 [PyInt 5, PyStr [], PyInt (- 1), PyInt (- 1)],
      TupleRec (Str ''c'') 1 0 [PyInt 5, PyStr [], PyInt (- 1), PyInt (- 1)]]) 3 = None \<and>
   fst (parse_data [TupleRec (Str ''a'') 0 0 [PyInt 3, PyStr [], PyInt (- 1), PyInt (- 1)],
      TupleRec (Str ''b'') 1 0 [PyInt 5, PyStr [], PyInt (- 1), PyInt (- 1)],
      TupleRec (Str ''c'') 1 0 [PyInt 5, PyStr [], PyInt (- 1), PyInt (- 1)]]) 5 = None \<and>
   snd (parse_data [TupleRec (Str ''a'') 0 0 [PyInt 3, PyStr [], PyInt (- 1), PyInt (- 1)],
      TupleRec (Str ''b'') 1 0 [PyInt 5, PyStr [], PyInt (- 1), PyInt (- 1)],
      TupleRec (Str ''c'') 1 0 [PyInt 5, PyStr [], PyInt (- 1), PyInt (- 1)]]) 0 = Some 1 \<and>
   get_data_counts [TupleRec (Str ''a'') 0 0 [PyInt 3, PyStr [], PyInt (- 1), PyInt (- 1)],
      TupleRec (Str ''b'') 1 0 [PyInt 5, PyStr [], PyInt (- 1), PyInt (- 1)],
      TupleRec (Str ''c'') 1 0 [PyInt 5, PyStr [], PyInt (- 1), PyInt (- 1)]] 5 = None \<and>
   (\<exists>c. get_data_counts [TupleRec (Str ''a'') 0 0 [PyInt 3, PyStr [], PyInt (- 1), PyInt (- 1)],
      TupleRec (Str ''b'') 1 0 [PyInt 5, PyStr [], PyInt (- 1), PyInt (- 1)],
      TupleRec (Str ''c'') 1 0 [PyInt 5, PyStr [], PyInt (- 1), PyInt (- 1)]] 0 = Some c \<and> c 1 = Some 2) \<and>
   get_obj_ids [TupleRec (Str ''a'') 0 0 [PyInt 3, PyStr [], PyInt (- 1), PyInt (- 1)],
      TupleRec (Str ''b'') 1 0 [PyInt 5, PyStr [], PyInt (- 1), PyInt (- 1)],
      TupleRec (Str ''c'') 1 0 [PyInt 5, PyStr [], PyInt (- 1), PyInt (- 1)]] [] None 0 = Some {0, 1} \<and>
   get_obj_ids [TupleRec (Str ''a'') 0 0 [PyInt 3, PyStr [], PyInt (- 1), PyInt (- 1)],
      TupleRec (Str ''b'') 1 0 [PyInt 5, PyStr [], PyInt (- 1), PyInt (- 1)],
      TupleRec (Str ''c'') 1 0 [PyInt 5, PyStr [], PyInt (- 1), PyInt (- 1)]] [] None 5 = None \<and>
   fst (add_record (init_attributes ImageDataset []
        [DictRec (Str ''x'') 0 0 0 [], DictRec (Str ''y'') 1 0 0 [], DictRec (Str ''z'') 0 0 5 []]
        [] [] False ''train'' False False) (TupleRec (Str ''b'') 1 0 [PyInt 5, PyStr [], PyInt (- 1), PyInt (- 1)])) =
     TupleRec (Str ''b'') 3 1 [PyInt 5, PyStr [], PyInt (- 1), PyInt (- 1)]"
proof -
  let ?xs = "[TupleRec (Str ''a'') 0 0 [PyInt 3, PyStr [], PyInt (- 1), PyInt (- 1)],
      TupleRec (Str ''b'') 1 0 [PyInt 5, PyStr [], PyInt (- 1), PyInt (- 1)],
      TupleRec (Str ''c'') 1 0 [PyInt 5, PyStr [], PyInt (- 1), PyInt (- 1)]]"
  let ?a = "(init_attributes ImageDataset []
        [DictRec (Str ''x'') 0 0 0 [], DictRec (Str ''y'') 1 0 0 [], DictRec (Str ''z'') 0 0 5 []]
        [] [] False ''train'' False False)"
  have t: "\<forall>r\<in>set ?xs. \<not> is_dict r" by simp
  have c: "count_at (num_train_pids ?a) 0 = 2" "count_at (num_train_cams ?a) 0 = 1"
    by (simp_all add: init_attributes_def count_at_def get_num_pids_def get_num_cams_def
        parse_data_def dd_add_def card_insert_if)
  note th = tuples_keyed_under_zero [OF t, of "[]" ?a]
  from th have p: "parse_data ?xs =
      ([0 \<mapsto> card (set (map rec_obj_id ?xs))], [0 \<mapsto> card (set (map rec_cam_id ?xs))])"
    by simp
  from th have d: "get_data_counts ?xs =
      [0 \<mapsto> (\<lambda>p. if p \<in> set (map rec_obj_id ?xs)
                    then Some (count_list (map rec_obj_id ?xs) p) else None)]"
    by simp
  from th have o: "get_obj_ids ?xs [] None = [0 \<mapsto> {0, 1}]"
    by (simp add: keep_def insert_commute)
  from th c have r: "fst (add_record ?a (TupleRec (Str ''b'') 1 0 [PyInt 5, PyStr [], PyInt (- 1), PyInt (- 1)])) =
     TupleRec (Str ''b'') 3 1 [PyInt 5, PyStr [], PyInt (- 1), PyInt (- 1)]"
    by simp
  show ?thesis
    unfolding p d o r by (simp add: card_insert_if)
qed

end
